theory Spec2Isabelle
  imports Complex_Main
begin

section \<open>Python values used by the services\<close>

text \<open>
  Strings are \<open>string\<close> (ASCII). An attribute that may be missing or \<open>None\<close> is an
  \<open>option\<close>. Python floats (file sizes in megabytes, the factor \<open>1.5\<close>, clock readings)
  are modelled by exact rationals: the embedding does not round. Integers are unbounded
  \<open>int\<close>, as in Python.
\<close>

definition is_digit :: "char \<Rightarrow> bool" where
  "is_digit c = (48 \<le> (of_char c :: nat) \<and> (of_char c :: nat) \<le> 57)"

definition is_alpha :: "char \<Rightarrow> bool" where
  "is_alpha c = ((65 \<le> (of_char c :: nat) \<and> (of_char c :: nat) \<le> 90)
     \<or> (97 \<le> (of_char c :: nat) \<and> (of_char c :: nat) \<le> 122))"

definition isalnum :: "char \<Rightarrow> bool" where
  "isalnum c = (is_digit c \<or> is_alpha c)"

definition lower_char :: "char \<Rightarrow> char" where
  "lower_char c = (if 65 \<le> (of_char c :: nat) \<and> (of_char c :: nat) \<le> 90
     then char_of ((of_char c :: nat) + 32) else c)"

text \<open>\<^verbatim>\<open>s.lower()\<close>\<close>

definition lower :: "string \<Rightarrow> string" where
  "lower s = map lower_char s"

text \<open>\<^verbatim>\<open>needle in hay\<close> on strings: \<open>needle\<close> occurs as a contiguous piece of \<open>hay\<close>.\<close>

fun py_in :: "string \<Rightarrow> string \<Rightarrow> bool" where
  "py_in needle [] = (needle = [])"
| "py_in needle (h # hs) = (take (length needle) (h # hs) = needle \<or> py_in needle hs)"

text \<open>\<^verbatim>\<open>int(digits)\<close> for a run of decimal digits.\<close>

definition int_of_digits :: "string \<Rightarrow> int" where
  "int_of_digits ds = foldl (\<lambda>a c. 10 * a + (int (of_char c) - 48)) 0 ds"

text \<open>\<^verbatim>\<open>re.search(r'(\d+)', s)\<close>: the first maximal run of digits, \<open>None\<close> when there is none.\<close>

definition re_search_digits :: "string \<Rightarrow> string option" where
  "re_search_digits s =
     (let run = takeWhile is_digit (dropWhile (\<lambda>c. \<not> is_digit c) s)
      in if run = [] then None else Some run)"

text \<open>\<^verbatim>\<open>str(n)\<close> for an integer.\<close>

fun str_of_nat :: "nat \<Rightarrow> string" where
  "str_of_nat n = (if n < 10 then [char_of (48 + n)]
     else str_of_nat (n div 10) @ [char_of (48 + n mod 10)])"

definition str_of_int :: "int \<Rightarrow> string" where
  "str_of_int i = (if i < 0 then CHR ''-'' # str_of_nat (nat (- i)) else str_of_nat (nat i))"

text \<open>A value of type \<open>Optional[str]\<close> inside an f-string.\<close>

definition fmt_opt :: "string option \<Rightarrow> string" where
  "fmt_opt s = (case s of None \<Rightarrow> ''None'' | Some t \<Rightarrow> t)"

text \<open>Truthiness of an optional string.\<close>

definition truthy_str :: "string option \<Rightarrow> bool" where
  "truthy_str s = (case s of None \<Rightarrow> False | Some t \<Rightarrow> t \<noteq> [])"

text \<open>\<^verbatim>\<open>d.get(k, default)\<close> on a dictionary literal.\<close>

definition dict_get :: "('k \<times> 'v) list \<Rightarrow> 'k \<Rightarrow> 'v \<Rightarrow> 'v" where
  "dict_get d k dflt = (case map_of d k of None \<Rightarrow> dflt | Some v \<Rightarrow> v)"

section \<open>Exceptions\<close>

text \<open>
  The exception classes of \<^verbatim>\<open>app/exceptions.py\<close> that the modelled code raises or
  catches, FastAPI's \<^verbatim>\<open>HTTPException\<close>, \<^verbatim>\<open>subprocess.TimeoutExpired\<close>, and
  \<open>OtherException\<close> for any other subclass of \<^verbatim>\<open>Exception\<close> raised by a library
  (its argument is \<^verbatim>\<open>str(e)\<close>).
\<close>

datatype exn =
    FFmpegNotFoundError string
  | MergeError string "string option" "string option"
  | DownloadError string
  | HTTPException int string
  | TimeoutExpired
  | OtherException string

text \<open>\<^verbatim>\<open>e.message\<close> of a \<^verbatim>\<open>YouTubeDownloaderError\<close>.\<close>

fun message :: "exn \<Rightarrow> string" where
  "message (FFmpegNotFoundError m) = m"
| "message (MergeError m v a) = m"
| "message (DownloadError m) = m"
| "message (HTTPException c d) = d"
| "message TimeoutExpired = ''timed out''"
| "message (OtherException m) = m"

text \<open>\<^verbatim>\<open>str(e)\<close>; Starlette prints an \<^verbatim>\<open>HTTPException\<close> as \<^verbatim>\<open>status: detail\<close>.\<close>

fun str_exn :: "exn \<Rightarrow> string" where
  "str_exn (HTTPException c d) = str_of_int c @ '': '' @ d"
| "str_exn e = message e"

section \<open>Quality scoring (\<^verbatim>\<open>app/config.py\<close>, \<^verbatim>\<open>services/smart_selection.py\<close>)\<close>

definition VIDEO_SCORES :: "(int \<times> int) list" where
  "VIDEO_SCORES = [(2160, 1000), (1440, 800), (1080, 600), (720, 400), (480, 200)]"

definition AUDIO_SCORES :: "(int \<times> int) list" where
  "AUDIO_SCORES = [(320, 300), (256, 250), (192, 200), (128, 150), (96, 100)]"

definition VIDEO_CODEC_BONUS :: "(string \<times> int) list" where
  "VIDEO_CODEC_BONUS = [(''av01'', 30), (''vp9'', 20), (''h264'', 10)]"

definition AUDIO_CODEC_BONUS :: "(string \<times> int) list" where
  "AUDIO_CODEC_BONUS = [(''opus'', 25), (''aac'', 20), (''mp3'', 10)]"

definition FPS_BONUS :: "(int \<times> int) list" where
  "FPS_BONUS = [(60, 50), (30, 25)]"

text \<open>
  What a transfer of the stream does when \<^verbatim>\<open>stream.download\<close> is called: the number of
  bytes it leaves in the output file (\<open>None\<close>: no file is created) and the exception it
  raises, if any.
\<close>

datatype transfer = Transfer (written: "nat option") (raises: "string option")

text \<open>
  A pytubefix stream, as far as the services read it. \<open>filesize\<close> is a property that may
  ask the network: \<open>Inl e\<close> when reading it raises.
\<close>

record Stream =
  itag :: int
  resolution :: "string option"
  fps :: "int option"
  video_codec :: "string option"
  abr :: "string option"
  audio_codec :: "string option"
  filesize :: "exn + nat option"
  subtype :: string
  download :: transfer

definition extract_resolution_number :: "string option \<Rightarrow> int" where
  "extract_resolution_number resolution_str =
     (case resolution_str of
        None \<Rightarrow> 0
      | Some s \<Rightarrow>
          if s = [] then 0
          else (case re_search_digits s of Some m \<Rightarrow> int_of_digits m | None \<Rightarrow> 0))"

definition extract_audio_bitrate :: "string option \<Rightarrow> int" where
  "extract_audio_bitrate abr_str =
     (case abr_str of
        None \<Rightarrow> 0
      | Some s \<Rightarrow>
          if s = [] then 0
          else (case re_search_digits s of Some m \<Rightarrow> int_of_digits m | None \<Rightarrow> 0))"

text \<open>
  \<^verbatim>\<open>calculate_video_quality_score\<close> adds three independent blocks to a score that starts
  at 0; each block is a definition of its own here.
\<close>

definition video_resolution_score :: "Stream \<Rightarrow> int" where
  "video_resolution_score s =
     (if truthy_str (resolution s) then
        (let res_num = extract_resolution_number (resolution s) in
         if res_num \<ge> 2160 then dict_get VIDEO_SCORES 2160 1000
         else if res_num \<ge> 1440 then dict_get VIDEO_SCORES 1440 800
         else if res_num \<ge> 1080 then dict_get VIDEO_SCORES 1080 600
         else if res_num \<ge> 720 then dict_get VIDEO_SCORES 720 400
         else if res_num \<ge> 480 then dict_get VIDEO_SCORES 480 200
         else res_num div 10)
      else 0)"

definition fps_score :: "Stream \<Rightarrow> int" where
  "fps_score s =
     (case fps s of
        None \<Rightarrow> 0
      | Some f \<Rightarrow>
          if f = 0 then 0
          else if f \<ge> 60 then dict_get FPS_BONUS 60 50
          else if f \<ge> 30 then dict_get FPS_BONUS 30 25
          else 0)"

definition video_codec_score :: "Stream \<Rightarrow> int" where
  "video_codec_score s =
     (case video_codec s of
        None \<Rightarrow> 0
      | Some c \<Rightarrow>
          if c = [] then 0
          else (let codec = lower c in
                if py_in ''av01'' codec then dict_get VIDEO_CODEC_BONUS ''av01'' 30
                else if py_in ''vp9'' codec then dict_get VIDEO_CODEC_BONUS ''vp9'' 20
                else if py_in ''h264'' codec then dict_get VIDEO_CODEC_BONUS ''h264'' 10
                else 0))"

definition calculate_video_quality_score :: "Stream \<Rightarrow> int" where
  "calculate_video_quality_score s =
     0 + video_resolution_score s + fps_score s + video_codec_score s"

definition audio_bitrate_score :: "Stream \<Rightarrow> int" where
  "audio_bitrate_score s =
     (if truthy_str (abr s) then
        (let bitrate = extract_audio_bitrate (abr s) in
         if bitrate \<ge> 320 then dict_get AUDIO_SCORES 320 300
         else if bitrate \<ge> 256 then dict_get AUDIO_SCORES 256 250
         else if bitrate \<ge> 192 then dict_get AUDIO_SCORES 192 200
         else if bitrate \<ge> 128 then dict_get AUDIO_SCORES 128 150
         else if bitrate \<ge> 96 then dict_get AUDIO_SCORES 96 100
         else bitrate)
      else 0)"

definition audio_codec_score :: "Stream \<Rightarrow> int" where
  "audio_codec_score s =
     (case audio_codec s of
        None \<Rightarrow> 0
      | Some c \<Rightarrow>
          if c = [] then 0
          else (let codec = lower c in
                if py_in ''opus'' codec then dict_get AUDIO_CODEC_BONUS ''opus'' 25
                else if py_in ''aac'' codec then dict_get AUDIO_CODEC_BONUS ''aac'' 20
                else if py_in ''mp3'' codec then dict_get AUDIO_CODEC_BONUS ''mp3'' 10
                else 0))"

definition calculate_audio_quality_score :: "Stream \<Rightarrow> int" where
  "calculate_audio_quality_score s = 0 + audio_bitrate_score s + audio_codec_score s"

text \<open>
  \<^verbatim>\<open>get_file_size_mb\<close>: \<open>Inl e\<close> when reading the \<open>filesize\<close> property raises \<open>e\<close>.
\<close>

definition get_file_size_mb :: "Stream \<Rightarrow> exn + rat" where
  "get_file_size_mb s =
     (case filesize s of
        Inl e \<Rightarrow> Inl e
      | Inr None \<Rightarrow> Inr 0
      | Inr (Some n) \<Rightarrow> if n \<noteq> 0 then Inr (of_nat n / (1024 * 1024)) else Inr 0)"

section \<open>Stream analysis\<close>

record StreamAnalysis =
  stream :: Stream
  stream_type :: string
  quality_score :: int
  size_mb :: rat
  analysis_itag :: string

text \<open>\<^verbatim>\<open>StreamAnalysis.__init__\<close>\<close>

definition StreamAnalysis_init :: "Stream \<Rightarrow> string \<Rightarrow> int \<Rightarrow> rat \<Rightarrow> StreamAnalysis" where
  "StreamAnalysis_init s ty score sz =
     \<lparr>stream = s, stream_type = ty, quality_score = score, size_mb = sz,
      analysis_itag = str_of_int (itag s)\<rparr>"

text \<open>
  The \<^verbatim>\<open>YouTube\<close> object, as far as \<^verbatim>\<open>analyze_streams\<close> reads it: the outcome of
  each of the three enumerations \<^verbatim>\<open>yt.streams.filter(...)\<close>, \<open>Inl e\<close> when the
  enumeration raises \<open>e\<close>.
\<close>

record YouTube =
  progressive_filter :: "exn + Stream list"
  video_filter :: "exn + Stream list"
  audio_filter :: "exn + Stream list"

text \<open>
  The two kinds of loop of \<^verbatim>\<open>analyze_streams\<close>. Each returns the exception that ended
  it, if any, and the list as the appends have left it at that moment.
\<close>

fun analyze_video_loop ::
  "string \<Rightarrow> Stream list \<Rightarrow> StreamAnalysis list \<Rightarrow> exn option \<times> StreamAnalysis list" where
  "analyze_video_loop ty [] acc = (None, acc)"
| "analyze_video_loop ty (s # ss) acc =
     (if truthy_str (resolution s) then
        (let score = calculate_video_quality_score s in
         case get_file_size_mb s of
           Inl e \<Rightarrow> (Some e, acc)
         | Inr sz \<Rightarrow> analyze_video_loop ty ss (acc @ [StreamAnalysis_init s ty score sz]))
      else analyze_video_loop ty ss acc)"

fun analyze_audio_loop ::
  "Stream list \<Rightarrow> StreamAnalysis list \<Rightarrow> exn option \<times> StreamAnalysis list" where
  "analyze_audio_loop [] acc = (None, acc)"
| "analyze_audio_loop (s # ss) acc =
     (let score = calculate_audio_quality_score s in
      case get_file_size_mb s of
        Inl e \<Rightarrow> (Some e, acc)
      | Inr sz \<Rightarrow> analyze_audio_loop ss (acc @ [StreamAnalysis_init s ''audio'' score sz]))"

text \<open>
  \<^verbatim>\<open>xs.sort(key=lambda x: x.quality_score, reverse=True)\<close>: descending and stable
  (elements with equal keys keep their order).
\<close>

definition sort_by_score :: "StreamAnalysis list \<Rightarrow> StreamAnalysis list" where
  "sort_by_score xs = sort_key (\<lambda>x. - quality_score x) xs"

text \<open>
  The \<^verbatim>\<open>try\<close> block of \<^verbatim>\<open>analyze_streams\<close>: the exception that leaves it, if any, and
  the three lists at that moment.
\<close>

definition analyze_try ::
  "YouTube \<Rightarrow> exn option \<times> StreamAnalysis list \<times> StreamAnalysis list \<times> StreamAnalysis list" where
  "analyze_try yt =
     (case progressive_filter yt of
        Inl e \<Rightarrow> (Some e, [], [], [])
      | Inr ps \<Rightarrow>
         (case analyze_video_loop ''progressive'' ps [] of
            (Some e, progressive_streams) \<Rightarrow> (Some e, progressive_streams, [], [])
          | (None, progressive_streams) \<Rightarrow>
             (case video_filter yt of
                Inl e \<Rightarrow> (Some e, progressive_streams, [], [])
              | Inr vs \<Rightarrow>
                 (case analyze_video_loop ''video'' vs [] of
                    (Some e, video_streams) \<Rightarrow> (Some e, progressive_streams, video_streams, [])
                  | (None, video_streams) \<Rightarrow>
                     (case audio_filter yt of
                        Inl e \<Rightarrow> (Some e, progressive_streams, video_streams, [])
                      | Inr as \<Rightarrow>
                         (case analyze_audio_loop as [] of
                            (Some e, audio_streams) \<Rightarrow>
                              (Some e, progressive_streams, video_streams, audio_streams)
                          | (None, audio_streams) \<Rightarrow>
                              (None, sort_by_score progressive_streams,
                               sort_by_score video_streams,
                               sort_by_score audio_streams)))))))"

text \<open>
  \<^verbatim>\<open>analyze_streams\<close>: the handler \<^verbatim>\<open>except Exception\<close> logs the exception and control
  falls through to the \<^verbatim>\<open>return\<close>. The result is \<open>Inl e\<close> when \<open>e\<close> leaves the function.
\<close>

definition analyze_streams ::
  "YouTube \<Rightarrow> exn + (StreamAnalysis list \<times> StreamAnalysis list \<times> StreamAnalysis list)" where
  "analyze_streams yt =
     (case analyze_try yt of
        (Some e, progressive_streams, video_streams, audio_streams) \<Rightarrow>
          Inr (progressive_streams, video_streams, audio_streams)
      | (None, progressive_streams, video_streams, audio_streams) \<Rightarrow>
          Inr (progressive_streams, video_streams, audio_streams))"

section \<open>Selection\<close>

text \<open>The dictionary returned by \<^verbatim>\<open>smart_select_best_option\<close>; \<open>plan_type\<close> is its key \<^verbatim>\<open>'type'\<close>.\<close>

record Selection =
  plan_type :: string
  video_stream :: Stream
  audio_stream :: "Stream option"
  video_itag :: string
  audio_itag :: "string option"
  estimated_size_mb :: rat
  quality_description :: string
  merge_required :: bool

text \<open>\<^verbatim>\<open>x or default\<close> on an optional string.\<close>

definition or_default :: "string option \<Rightarrow> string \<Rightarrow> string" where
  "or_default s d = (if truthy_str s then fmt_opt s else d)"

definition merge_selection :: "StreamAnalysis \<Rightarrow> StreamAnalysis \<Rightarrow> string \<Rightarrow> Selection" where
  "merge_selection best_video best_audio audio_label =
     (let combined_size = size_mb best_video + size_mb best_audio in
      \<lparr>plan_type = ''merge'',
       video_stream = stream best_video,
       audio_stream = Some (stream best_audio),
       video_itag = analysis_itag best_video,
       audio_itag = Some (analysis_itag best_audio),
       estimated_size_mb = combined_size,
       quality_description =
         fmt_opt (resolution (stream best_video)) @ '' + ''
           @ or_default (abr (stream best_audio)) audio_label,
       merge_required = True\<rparr>)"

definition progressive_selection :: "StreamAnalysis \<Rightarrow> string \<Rightarrow> Selection" where
  "progressive_selection best_progressive suffix =
     \<lparr>plan_type = ''progressive'',
      video_stream = stream best_progressive,
      audio_stream = None,
      video_itag = analysis_itag best_progressive,
      audio_itag = None,
      estimated_size_mb = size_mb best_progressive,
      quality_description = fmt_opt (resolution (stream best_progressive)) @ suffix,
      merge_required = False\<rparr>"

text \<open>
  The decision of \<^verbatim>\<open>smart_select_best_option\<close> on the three analysed lists (options 1
  to 4 in the order of the source, then \<^verbatim>\<open>None\<close>). \<open>xs[0]\<close> is read only where the
  source has checked that \<open>xs\<close> is not empty.
\<close>

definition best_progressive_quality :: "StreamAnalysis list \<Rightarrow> int" where
  "best_progressive_quality progressive_streams =
     (if progressive_streams \<noteq> []
      then extract_resolution_number (resolution (stream (hd progressive_streams)))
      else 0)"

definition select_option ::
  "StreamAnalysis list \<Rightarrow> StreamAnalysis list \<Rightarrow> StreamAnalysis list \<Rightarrow> bool
     \<Rightarrow> Selection option" where
  "select_option progressive_streams video_streams audio_streams prefer_progressive =
     (if video_streams \<noteq> [] \<and> audio_streams \<noteq> [] \<and>
         (let best_video_quality =
                extract_resolution_number (resolution (stream (hd video_streams)))
          in (of_int best_video_quality :: rat)
                > of_int (best_progressive_quality progressive_streams) * (3 / 2)
             \<or> best_progressive_quality progressive_streams < 720)
      then Some (merge_selection (hd video_streams) (hd audio_streams) ''High Quality Audio'')
      else if prefer_progressive \<and> progressive_streams \<noteq> [] \<and>
         extract_resolution_number (resolution (stream (hd progressive_streams))) \<ge> 720
      then Some (progressive_selection (hd progressive_streams) '' (Progressive)'')
      else if video_streams \<noteq> [] \<and> audio_streams \<noteq> []
      then Some (merge_selection (hd video_streams) (hd audio_streams) ''Audio'')
      else if progressive_streams \<noteq> []
      then Some (progressive_selection (hd progressive_streams) '' (Progressive - Fallback)'')
      else None)"

text \<open>
  \<^verbatim>\<open>smart_select_best_option\<close>: an exception anywhere in the body is caught and turned
  into \<^verbatim>\<open>None\<close>.
\<close>

definition smart_select_best_option :: "YouTube \<Rightarrow> bool \<Rightarrow> Selection option" where
  "smart_select_best_option yt prefer_progressive =
     (case analyze_streams yt of
        Inl e \<Rightarrow> None
      | Inr (progressive_streams, video_streams, audio_streams) \<Rightarrow>
          select_option progressive_streams video_streams audio_streams prefer_progressive)"

section \<open>Bounded cache with expiry (\<^verbatim>\<open>utils/cache.py\<close>)\<close>

text \<open>
  A Python dictionary keeps its keys in insertion order, and \<^verbatim>\<open>min\<close> over its keys
  depends on that order when timestamps tie: \<^verbatim>\<open>self._cache\<close> is an association list
  in insertion order. Assigning to a key that is present keeps its position; a new key
  goes to the end. Every reading of the clock, \<^verbatim>\<open>time.time()\<close>, is the argument \<open>now\<close>.
\<close>

definition dict_contains :: "('k \<times> 'v) list \<Rightarrow> 'k \<Rightarrow> bool" where
  "dict_contains d k = (map_of d k \<noteq> None)"

fun dict_setitem :: "('k \<times> 'v) list \<Rightarrow> 'k \<Rightarrow> 'v \<Rightarrow> ('k \<times> 'v) list" where
  "dict_setitem [] k v = [(k, v)]"
| "dict_setitem (p # ps) k v = (if fst p = k then (k, v) # ps else p # dict_setitem ps k v)"

definition dict_delitem :: "('k \<times> 'v) list \<Rightarrow> 'k \<Rightarrow> ('k \<times> 'v) list" where
  "dict_delitem d k = filter (\<lambda>p. fst p \<noteq> k) d"

text \<open>
  \<^verbatim>\<open>min(xs, key=f)\<close> on a non-empty sequence \<open>best # xs\<close>: the first element whose key is
  minimal (a later element replaces the current one only when its key is strictly less).
\<close>

fun py_min_key :: "('a \<Rightarrow> rat) \<Rightarrow> 'a \<Rightarrow> 'a list \<Rightarrow> 'a" where
  "py_min_key f best [] = best"
| "py_min_key f best (x # xs) = py_min_key f (if f x < f best then x else best) xs"

record 'v cache_entry =
  timestamp :: rat
  data :: 'v

record cache_stats =
  hits :: int
  misses :: int
  stores :: int
  cleanups :: int
  evictions :: int

record ('k, 'v) CacheManager =
  ttl :: int
  max_size :: int
  cache :: "('k \<times> 'v cache_entry) list"
  stats :: cache_stats

text \<open>\<^verbatim>\<open>CacheManager.__init__\<close>\<close>

definition CacheManager_init :: "int \<Rightarrow> int \<Rightarrow> ('k, 'v) CacheManager" where
  "CacheManager_init ttl0 max_size0 =
     \<lparr>ttl = ttl0, max_size = max_size0, cache = [],
      stats = \<lparr>hits = 0, misses = 0, stores = 0, cleanups = 0, evictions = 0\<rparr>\<rparr>"

text \<open>\<^verbatim>\<open>CacheManager.get\<close>: the value returned (\<open>None\<close> for a miss) and the cache afterwards.\<close>

definition CacheManager_get ::
  "('k, 'v) CacheManager \<Rightarrow> rat \<Rightarrow> 'k \<Rightarrow> 'v option \<times> ('k, 'v) CacheManager" where
  "CacheManager_get self now key =
     (case map_of (cache self) key of
        Some cache_entry \<Rightarrow>
          if now - timestamp cache_entry < of_int (ttl self)
          then (Some (data cache_entry),
                self\<lparr>stats := (stats self)\<lparr>hits := hits (stats self) + 1\<rparr>\<rparr>)
          else (None,
                self\<lparr>cache := dict_delitem (cache self) key,
                     stats := (stats self)\<lparr>misses := misses (stats self) + 1\<rparr>\<rparr>)
      | None \<Rightarrow>
          (None, self\<lparr>stats := (stats self)\<lparr>misses := misses (stats self) + 1\<rparr>\<rparr>))"

text \<open>
  \<^verbatim>\<open>CacheManager._evict_oldest\<close>. The key function of \<^verbatim>\<open>min\<close> looks the key up in the
  dictionary it came from.
\<close>

definition CacheManager_evict_oldest :: "('k, 'v) CacheManager \<Rightarrow> ('k, 'v) CacheManager" where
  "CacheManager_evict_oldest self =
     (case map fst (cache self) of
        [] \<Rightarrow> self
      | k # ks \<Rightarrow>
          (let oldest_key =
                 py_min_key (\<lambda>k'. timestamp (the (map_of (cache self) k'))) k ks
           in self\<lparr>cache := dict_delitem (cache self) oldest_key,
                   stats := (stats self)\<lparr>evictions := evictions (stats self) + 1\<rparr>\<rparr>))"

text \<open>\<^verbatim>\<open>CacheManager.set\<close>\<close>

definition CacheManager_set ::
  "('k, 'v) CacheManager \<Rightarrow> rat \<Rightarrow> 'k \<Rightarrow> 'v \<Rightarrow> ('k, 'v) CacheManager" where
  "CacheManager_set self now key dat =
     (let self1 = (if int (length (cache self)) \<ge> max_size self
                   then CacheManager_evict_oldest self else self)
      in self1\<lparr>cache := dict_setitem (cache self1) key \<lparr>timestamp = now, data = dat\<rparr>,
               stats := (stats self1)\<lparr>stores := stores (stats self1) + 1\<rparr>\<rparr>)"

text \<open>\<^verbatim>\<open>CacheManager.delete\<close>\<close>

definition CacheManager_delete ::
  "('k, 'v) CacheManager \<Rightarrow> 'k \<Rightarrow> bool \<times> ('k, 'v) CacheManager" where
  "CacheManager_delete self key =
     (if dict_contains (cache self) key
      then (True, self\<lparr>cache := dict_delitem (cache self) key\<rparr>)
      else (False, self))"

text \<open>\<^verbatim>\<open>CacheManager.clear\<close>\<close>

definition CacheManager_clear :: "('k, 'v) CacheManager \<Rightarrow> ('k, 'v) CacheManager" where
  "CacheManager_clear self = self\<lparr>cache := []\<rparr>"

text \<open>
  \<^verbatim>\<open>CacheManager.cleanup_expired\<close>: the number of keys removed and the cache afterwards.
\<close>

definition CacheManager_cleanup_expired ::
  "('k, 'v) CacheManager \<Rightarrow> rat \<Rightarrow> int \<times> ('k, 'v) CacheManager" where
  "CacheManager_cleanup_expired self current_time =
     (let expired_keys =
            map fst (filter (\<lambda>(k, v). current_time - timestamp v > of_int (ttl self))
                       (cache self));
          self1 = self\<lparr>cache := fold (\<lambda>key d. dict_delitem d key) expired_keys (cache self)\<rparr>;
          self2 = (if expired_keys \<noteq> []
                   then self1\<lparr>stats := (stats self1)\<lparr>cleanups := cleanups (stats self1) + 1\<rparr>\<rparr>
                   else self1)
      in (int (length expired_keys), self2))"

text \<open>
  A run of \<^verbatim>\<open>set\<close> calls, each with the reading of the clock at that call, its key and its
  value.
\<close>

definition set_all ::
  "('k, 'v) CacheManager \<Rightarrow> (rat \<times> 'k \<times> 'v) list \<Rightarrow> ('k, 'v) CacheManager" where
  "set_all self ops = foldl (\<lambda>s (now, key, dat). CacheManager_set s now key dat) self ops"

text \<open>The entry that a \<^verbatim>\<open>set\<close> call stores.\<close>

definition entry_of :: "rat \<times> 'k \<times> 'v \<Rightarrow> 'k \<times> 'v cache_entry" where
  "entry_of op = (case op of (now, key, dat) \<Rightarrow> (key, \<lparr>timestamp = now, data = dat\<rparr>))"

text \<open>A dictionary has each key once.\<close>

definition dict_ok :: "('k \<times> 'v) list \<Rightarrow> bool" where
  "dict_ok d = distinct (map fst d)"

section \<open>The file system and child processes\<close>

text \<open>
  The part of the operating system that the services touch: regular files with their sizes,
  directories, the paths whose removal fails (\<^verbatim>\<open>os.remove\<close> and \<^verbatim>\<open>shutil.rmtree\<close> raise
  \<^verbatim>\<open>OSError\<close> on them), the command line and the final state of every child process that
  has been started, and the number of calls of \<^verbatim>\<open>merge_video_audio\<close> so far.
\<close>

datatype process_state = Running | Exited int | Killed

record world =
  files :: "string \<Rightarrow> nat option"
  dirs :: "string set"
  unremovable :: "string set"
  commands :: "string list list"
  processes :: "process_state list"
  merge_calls :: nat

text \<open>
  \<^verbatim>\<open>os.path.join\<close>, \<^verbatim>\<open>os.path.basename\<close>, \<^verbatim>\<open>os.path.exists\<close> and
  \<^verbatim>\<open>os.path.getsize\<close> on POSIX paths; the size reported for a directory is 4096.
\<close>

definition os_path_join :: "string \<Rightarrow> string \<Rightarrow> string" where
  "os_path_join a b =
     (if b \<noteq> [] \<and> hd b = CHR ''/'' then b
      else if a = [] \<or> last a = CHR ''/'' then a @ b
      else a @ ''/'' @ b)"

definition os_path_basename :: "string \<Rightarrow> string" where
  "os_path_basename p = rev (takeWhile (\<lambda>c. c \<noteq> CHR ''/'') (rev p))"

definition os_path_exists :: "world \<Rightarrow> string \<Rightarrow> bool" where
  "os_path_exists w p = (files w p \<noteq> None \<or> p \<in> dirs w)"

definition os_path_getsize :: "world \<Rightarrow> string \<Rightarrow> nat" where
  "os_path_getsize w p = (case files w p of Some n \<Rightarrow> n | None \<Rightarrow> 4096)"

text \<open>A path strictly below the directory \<open>d\<close>.\<close>

definition below :: "string \<Rightarrow> string \<Rightarrow> bool" where
  "below d p = (length d < length p \<and> take (length d) p = d
     \<and> (last d = CHR ''/'' \<or> p ! length d = CHR ''/''))"

text \<open>
  \<^verbatim>\<open>tempfile.mkdtemp\<close>: the operating system proposes a name; a name that is taken is
  refused, and the new directory is empty.
\<close>

definition mkdtemp :: "exn + string \<Rightarrow> world \<Rightarrow> (exn + string) \<times> world" where
  "mkdtemp proposal w =
     (case proposal of
        Inl e \<Rightarrow> (Inl e, w)
      | Inr d \<Rightarrow>
          if os_path_exists w d
          then (Inl (OtherException ''[Errno 17] No usable temporary directory name found''), w)
          else (Inr d, w\<lparr>files := (\<lambda>p. if below d p then None else files w p),
                         dirs := insert d {p \<in> dirs w. \<not> below d p}\<rparr>))"

text \<open>
  \<^verbatim>\<open>os.remove\<close> and \<^verbatim>\<open>shutil.rmtree\<close>: the exception raised, if any, and the world
  afterwards. A removal that fails leaves everything in place here (the real \<^verbatim>\<open>rmtree\<close>
  may have removed some of the files before it fails; the directory itself stays).
\<close>

definition os_remove :: "world \<Rightarrow> string \<Rightarrow> exn option \<times> world" where
  "os_remove w p =
     (if files w p = None \<or> p \<in> unremovable w
      then (Some (OtherException ''[Errno 13] Permission denied''), w)
      else (None, w\<lparr>files := (files w)(p := None)\<rparr>))"

definition rmtree_fails :: "world \<Rightarrow> string \<Rightarrow> bool" where
  "rmtree_fails w d =
     (d \<notin> dirs w \<or> d \<in> unremovable w
      \<or> (\<exists>p \<in> unremovable w. below d p \<and> os_path_exists w p))"

definition shutil_rmtree :: "world \<Rightarrow> string \<Rightarrow> exn option \<times> world" where
  "shutil_rmtree w d =
     (if rmtree_fails w d
      then (Some (OtherException ''[Errno 13] Permission denied''), w)
      else (None, w\<lparr>files := (\<lambda>p. if below d p then None else files w p),
                     dirs := {p \<in> dirs w. p \<noteq> d \<and> \<not> below d p}\<rparr>))"

text \<open>
  What the child has written to its pipes, as \<^verbatim>\<open>text=True\<close> reads it: the error output as
  text, or bytes that cannot be decoded (the argument is \<^verbatim>\<open>str(e)\<close> of the
  \<^verbatim>\<open>UnicodeDecodeError\<close> that the decoding raises).
\<close>

datatype captured = Decoded string | Undecodable string

text \<open>
  What the external tool does when it is started: it cannot be started, or it ends by
  itself after some time with an exit code and the output captured from it, or it never
  ends; and what it has written to the file system by the time it ends or is killed.
\<close>

datatype process_behaviour =
    CannotStart string
  | Finishes rat int captured
  | Hangs

record tool =
  behaviour :: process_behaviour
  effect :: "(string \<Rightarrow> nat option) \<Rightarrow> (string \<Rightarrow> nat option)"

text \<open>
  \<^verbatim>\<open>subprocess.run(cmd, capture_output=True, text=True, timeout=t)\<close>, as Python documents
  it: the child is started and awaited; when the timeout expires the child is killed and
  awaited, and \<^verbatim>\<open>TimeoutExpired\<close> is raised. When the child has ended in time, its captured
  output is decoded, and a \<^verbatim>\<open>UnicodeDecodeError\<close> is raised when that fails, whatever the
  exit code. The result is the exception or the pair of \<^verbatim>\<open>returncode\<close> and \<^verbatim>\<open>stderr\<close>.
\<close>

definition subprocess_run ::
  "tool \<Rightarrow> string list \<Rightarrow> int \<Rightarrow> world \<Rightarrow> (exn + int \<times> string) \<times> world" where
  "subprocess_run t cmd timeout w =
     (case behaviour t of
        CannotStart m \<Rightarrow> (Inl (OtherException m), w)
      | Finishes duration returncode out \<Rightarrow>
          if duration \<le> of_int timeout
          then ((case out of
                   Decoded err \<Rightarrow> Inr (returncode, err)
                 | Undecodable m \<Rightarrow> Inl (OtherException m)),
                w\<lparr>files := effect t (files w), commands := commands w @ [cmd],
                   processes := processes w @ [Exited returncode]\<rparr>)
          else (Inl TimeoutExpired,
                w\<lparr>files := effect t (files w), commands := commands w @ [cmd],
                   processes := processes w @ [Killed]\<rparr>)
      | Hangs \<Rightarrow>
          (Inl TimeoutExpired,
           w\<lparr>files := effect t (files w), commands := commands w @ [cmd],
              processes := processes w @ [Killed]\<rparr>))"

section \<open>The FFmpeg service (\<^verbatim>\<open>services/ffmpeg_service.py\<close>)\<close>

record FFmpegService =
  timeout :: int
  ffmpeg_executable :: "string option"

definition is_available :: "FFmpegService \<Rightarrow> bool" where
  "is_available self = (ffmpeg_executable self \<noteq> None)"

text \<open>\<^verbatim>\<open>FFmpegService._cleanup_files\<close>: a removal that raises is logged and skipped.\<close>

fun cleanup_files :: "world \<Rightarrow> string list \<Rightarrow> world" where
  "cleanup_files w [] = w"
| "cleanup_files w (file_path # rest) =
     (if os_path_exists w file_path
      then cleanup_files (snd (os_remove w file_path)) rest
      else cleanup_files w rest)"

text \<open>\<^verbatim>\<open>FFmpegService.create_temp_merge_dir\<close> and \<^verbatim>\<open>FFmpegService.cleanup_merge_dir\<close>\<close>

definition create_temp_merge_dir :: "exn + string \<Rightarrow> world \<Rightarrow> (exn + string) \<times> world" where
  "create_temp_merge_dir proposal w = mkdtemp proposal w"

definition cleanup_merge_dir :: "world \<Rightarrow> string \<Rightarrow> world" where
  "cleanup_merge_dir w temp_dir =
     (if os_path_exists w temp_dir then snd (shutil_rmtree w temp_dir) else w)"

text \<open>
  \<^verbatim>\<open>FFmpegService.merge_video_audio\<close>. A \<^verbatim>\<open>MergeError\<close> raised inside the \<^verbatim>\<open>try\<close> block
  is caught by \<^verbatim>\<open>except Exception\<close> and raised again as a \<^verbatim>\<open>MergeError\<close> whose message
  starts with \<^verbatim>\<open>Merge failed: \<close>.
\<close>

definition merge_command ::
  "FFmpegService \<Rightarrow> string \<Rightarrow> string \<Rightarrow> string \<Rightarrow> string \<Rightarrow> string \<Rightarrow> string list" where
  "merge_command self video_path audio_path output_path vcodec acodec =
     [fmt_opt (ffmpeg_executable self), ''-i'', video_path, ''-i'', audio_path,
      ''-c:v'', vcodec, ''-c:a'', acodec, ''-shortest'', ''-y'', output_path]"

definition merge_video_audio ::
  "FFmpegService \<Rightarrow> tool \<Rightarrow> world \<Rightarrow> string \<Rightarrow> string \<Rightarrow> string \<Rightarrow> bool \<Rightarrow> string \<Rightarrow> string
     \<Rightarrow> (exn + string) \<times> world" where
  "merge_video_audio self t w0 video_path audio_path output_path cleanup_temp vcodec acodec =
     (let w = w0\<lparr>merge_calls := merge_calls w0 + 1\<rparr> in
      if \<not> is_available self
      then (Inl (FFmpegNotFoundError ''FFmpeg is not installed or not found in PATH''), w)
      else if \<not> os_path_exists w video_path
      then (Inl (MergeError (''Video file not found: '' @ video_path) (Some video_path) None), w)
      else if \<not> os_path_exists w audio_path
      then (Inl (MergeError (''Audio file not found: '' @ audio_path) None (Some audio_path)), w)
      else
        (case subprocess_run t
                (merge_command self video_path audio_path output_path vcodec acodec)
                (timeout self) w of
           (Inl TimeoutExpired, w1) \<Rightarrow>
             (Inl (MergeError
                     (''FFmpeg merge timed out after '' @ str_of_int (timeout self) @ '' seconds'')
                     (Some video_path) (Some audio_path)), w1)
         | (Inl e, w1) \<Rightarrow>
             (Inl (MergeError (''Merge failed: '' @ str_exn e)
                     (Some video_path) (Some audio_path)), w1)
         | (Inr (returncode, err), w1) \<Rightarrow>
             if returncode \<noteq> 0
             then (Inl (MergeError (''Merge failed: '' @ ''FFmpeg merge failed: '' @ err)
                          (Some video_path) (Some audio_path)), w1)
             else if \<not> os_path_exists w1 output_path \<or> os_path_getsize w1 output_path = 0
             then (Inl (MergeError
                          (''Merge failed: '' @ ''Output file was not created or is empty'')
                          (Some video_path) (Some audio_path)), w1)
             else (Inr output_path,
                   if cleanup_temp then cleanup_files w1 [video_path, audio_path] else w1)))"


section \<open>The YouTube service (\<^verbatim>\<open>services/youtube_service.py\<close>)\<close>

text \<open>
  \<^verbatim>\<open>YouTubeService.download_stream\<close>. The transfer leaves its bytes at the output path or
  creates no file; the \<^verbatim>\<open>DownloadError\<close> of the verification is raised inside the
  \<^verbatim>\<open>try\<close> block and wrapped again by its handler.
\<close>

definition download_stream ::
  "Stream \<Rightarrow> world \<Rightarrow> string \<Rightarrow> string \<Rightarrow> (exn + string) \<times> world" where
  "download_stream s w output_dir filename =
     (let output_path = os_path_join output_dir filename;
          w1 = (case written (download s) of
                  None \<Rightarrow> w
                | Some n \<Rightarrow> w\<lparr>files := (files w)(output_path \<mapsto> n)\<rparr>)
      in case raises (download s) of
           Some m \<Rightarrow> (Inl (DownloadError (''Failed to download stream: '' @ m)), w1)
         | None \<Rightarrow>
             if \<not> os_path_exists w1 output_path \<or> os_path_getsize w1 output_path = 0
             then (Inl (DownloadError (''Failed to download stream: ''
                          @ ''Download failed - file not created or empty: '' @ filename)), w1)
             else (Inr output_path, w1))"

text \<open>\<^verbatim>\<open>YouTubeService.create_safe_filename\<close> with its default arguments.\<close>

definition rstrip :: "string \<Rightarrow> string" where
  "rstrip s = rev (dropWhile (\<lambda>c. c = CHR '' '') (rev s))"

definition create_safe_filename :: "string \<Rightarrow> string" where
  "create_safe_filename title =
     take 50 (rstrip (filter (\<lambda>c. isalnum c \<or> c \<in> {CHR '' '', CHR ''-'', CHR ''_''}) title))"

section \<open>The smart download (\<^verbatim>\<open>main.py\<close>)\<close>

text \<open>
  What the rest of the system answers during one call of \<^verbatim>\<open>smart_download\<close>: the result
  of \<^verbatim>\<open>get_fast_smart_selection\<close>, of \<^verbatim>\<open>create_youtube_object\<close> (the title of the video),
  the name proposed for the temporary directory, which of the two parallel transfers ends
  first, and the behaviour of the merge tool.
\<close>

record environment =
  smart_option :: "Selection option"
  yt_title :: "exn + string option"
  temp_name :: "exn + string"
  video_first :: bool
  ffmpeg :: tool

record StreamingResponse =
  body_path :: string
  media_type :: string
  content_disposition :: string
  cleanup_after_streaming :: string

definition streaming_response :: "string \<Rightarrow> string \<Rightarrow> StreamingResponse" where
  "streaming_response output_path temp_dir =
     \<lparr>body_path = output_path, media_type = ''video/mp4'',
      content_disposition = ''attachment; filename='' @ os_path_basename output_path,
      cleanup_after_streaming = temp_dir\<rparr>"

text \<open>
  The two transfers run on two worker threads and write two different files; the executor
  is left only when both have ended. The result of each and the world after both, for the
  order in which they end.
\<close>

definition parallel_downloads ::
  "bool \<Rightarrow> Stream \<Rightarrow> string \<Rightarrow> Stream \<Rightarrow> string \<Rightarrow> string \<Rightarrow> world
     \<Rightarrow> (exn + string) \<times> (exn + string) \<times> world" where
  "parallel_downloads vfirst vstream video_filename astream audio_filename temp_dir w =
     (if vfirst
      then (case download_stream vstream w temp_dir video_filename of
              (rv, w1) \<Rightarrow>
                (case download_stream astream w1 temp_dir audio_filename of
                   (ra, w2) \<Rightarrow> (rv, ra, w2)))
      else (case download_stream astream w temp_dir audio_filename of
              (ra, w1) \<Rightarrow>
                (case download_stream vstream w1 temp_dir video_filename of
                   (rv, w2) \<Rightarrow> (rv, ra, w2))))"

text \<open>
  \<^verbatim>\<open>str(e)\<close> of the \<^verbatim>\<open>AttributeError\<close> that \<^verbatim>\<open>audio_stream.subtype\<close> raises when the
  plan has no audio stream.
\<close>

definition none_has_no_subtype :: string where
  "none_has_no_subtype =
     CHR 0x27 # ''NoneType'' @ CHR 0x27 # '' object has no attribute '' @ CHR 0x27 # ''subtype''
       @ [CHR 0x27]"

text \<open>
  The two branches of \<^verbatim>\<open>smart_download\<close> after the temporary directory has been
  created: their result and the world.
\<close>

definition progressive_branch ::
  "Selection \<Rightarrow> string \<Rightarrow> string \<Rightarrow> world \<Rightarrow> (exn + StreamingResponse) \<times> world" where
  "progressive_branch opt safe_title temp_dir w1 =
     (case download_stream (video_stream opt) w1 temp_dir (safe_title @ ''_Smart.mp4'') of
        (Inl e, w2) \<Rightarrow> (Inl e, w2)
      | (Inr output_path, w2) \<Rightarrow> (Inr (streaming_response output_path temp_dir), w2))"

definition merge_branch ::
  "FFmpegService \<Rightarrow> environment \<Rightarrow> Selection \<Rightarrow> string \<Rightarrow> string \<Rightarrow> world
     \<Rightarrow> (exn + StreamingResponse) \<times> world" where
  "merge_branch service env opt safe_title temp_dir w1 =
     (if \<not> is_available service
      then (Inl (HTTPException 500 ''FFmpeg not available for merging''), w1)
      else
        (case audio_stream opt of
           None \<Rightarrow> (Inl (OtherException none_has_no_subtype), w1)
         | Some astream \<Rightarrow>
            (case parallel_downloads (video_first env) (video_stream opt)
                    (safe_title @ ''_video_temp.'' @ subtype (video_stream opt))
                    astream (safe_title @ ''_audio_temp.'' @ subtype astream) temp_dir w1 of
               (Inl e, ra, w2) \<Rightarrow> (Inl e, w2)
             | (Inr video_path, Inl e, w2) \<Rightarrow> (Inl e, w2)
             | (Inr video_path, Inr audio_path, w2) \<Rightarrow>
                 (case merge_video_audio service (ffmpeg env) w2 video_path audio_path
                         (os_path_join temp_dir (safe_title @ ''_Smart.mp4''))
                         True ''copy'' ''aac'' of
                    (Inl e, w3) \<Rightarrow> (Inl e, w3)
                  | (Inr merged, w3) \<Rightarrow>
                      (Inr (streaming_response
                              (os_path_join temp_dir (safe_title @ ''_Smart.mp4'')) temp_dir),
                       w3)))))"

text \<open>
  The \<^verbatim>\<open>try\<close> block of \<^verbatim>\<open>smart_download\<close>: its result, the value of \<^verbatim>\<open>temp_dir\<close> when
  the block is left, and the world.
\<close>

definition smart_download_try ::
  "FFmpegService \<Rightarrow> environment \<Rightarrow> world
     \<Rightarrow> (exn + StreamingResponse) \<times> string option \<times> world" where
  "smart_download_try service env w =
     (case smart_option env of
        None \<Rightarrow>
          (Inl (HTTPException 404 ''No suitable streams found for smart download''), None, w)
      | Some opt \<Rightarrow>
         (case yt_title env of
            Inl e \<Rightarrow> (Inl e, None, w)
          | Inr title \<Rightarrow>
             (case create_temp_merge_dir (temp_name env) w of
                (Inl e, w1) \<Rightarrow> (Inl e, None, w1)
              | (Inr temp_dir, w1) \<Rightarrow>
                 (case (if plan_type opt = ''progressive''
                        then progressive_branch opt
                               (create_safe_filename (or_default title ''smart_download''))
                               temp_dir w1
                        else if plan_type opt = ''merge''
                        then merge_branch service env opt
                               (create_safe_filename (or_default title ''smart_download''))
                               temp_dir w1
                        else (Inl (HTTPException 500 ''Unknown smart download type''), w1)) of
                    (r, w2) \<Rightarrow> (r, Some temp_dir, w2)))))"

text \<open>
  The handlers of \<^verbatim>\<open>smart_download\<close>: each removes the temporary directory when
  \<^verbatim>\<open>temp_dir\<close> is set and raises an \<^verbatim>\<open>HTTPException\<close> with status 500.
\<close>

fun handler_exception :: "exn \<Rightarrow> exn" where
  "handler_exception (FFmpegNotFoundError m) = HTTPException 500 m"
| "handler_exception (MergeError m v a) = HTTPException 500 m"
| "handler_exception (DownloadError m) = HTTPException 500 m"
| "handler_exception e = HTTPException 500 (''Smart download failed: '' @ str_exn e)"

definition smart_download ::
  "FFmpegService \<Rightarrow> environment \<Rightarrow> world \<Rightarrow> (exn + StreamingResponse) \<times> world" where
  "smart_download service env w =
     (case smart_download_try service env w of
        (Inr response, temp_dir, w1) \<Rightarrow> (Inr response, w1)
      | (Inl e, temp_dir, w1) \<Rightarrow>
          (Inl (handler_exception e),
           case temp_dir of
             None \<Rightarrow> w1
           | Some d \<Rightarrow> if d \<noteq> [] then cleanup_merge_dir w1 d else w1))"

section \<open>Tiers of the quality score\<close>

text \<open>
  The five resolution tiers and the five bitrate tiers of the specification, numbered from
  1; 0 is everything below the lowest tier.
\<close>

definition video_tier :: "int \<Rightarrow> nat" where
  "video_tier r = (if r \<ge> 2160 then 5 else if r \<ge> 1440 then 4 else if r \<ge> 1080 then 3
     else if r \<ge> 720 then 2 else if r \<ge> 480 then 1 else 0)"

definition audio_tier :: "int \<Rightarrow> nat" where
  "audio_tier b = (if b \<ge> 320 then 5 else if b \<ge> 256 then 4 else if b \<ge> 192 then 3
     else if b \<ge> 128 then 2 else if b \<ge> 96 then 1 else 0)"


section \<open>Example streams\<close>

definition example_video :: "string \<Rightarrow> Stream" where
  "example_video r =
     \<lparr>itag = 137, resolution = Some r, fps = Some 30, video_codec = Some ''avc1.640028'',
      abr = None, audio_codec = None, filesize = Inr (Some 26214400), subtype = ''mp4'',
      download = Transfer (Some 26214400) None\<rparr>"

definition example_audio :: "string \<Rightarrow> Stream" where
  "example_audio b =
     \<lparr>itag = 140, resolution = None, fps = None, video_codec = None,
      abr = Some b, audio_codec = Some ''mp4a.40.2'', filesize = Inr (Some 5242880),
      subtype = ''mp4'', download = Transfer (Some 5242880) None\<rparr>"

text \<open>The analysis the analyzer builds for a stream whose size is known.\<close>

definition analysis_of_video :: "string \<Rightarrow> string \<Rightarrow> StreamAnalysis" where
  "analysis_of_video ty r =
     StreamAnalysis_init (example_video r) ty (calculate_video_quality_score (example_video r)) 25"

definition analysis_of_audio :: "string \<Rightarrow> StreamAnalysis" where
  "analysis_of_audio b =
     StreamAnalysis_init (example_audio b) ''audio''
       (calculate_audio_quality_score (example_audio b)) 5"

text \<open>Example \<^verbatim>\<open>YouTube\<close> objects.\<close>

definition yt_empty :: YouTube where
  "yt_empty = \<lparr>progressive_filter = Inr [], video_filter = Inr [], audio_filter = Inr []\<rparr>"

definition yt_unreachable :: YouTube where
  "yt_unreachable =
     \<lparr>progressive_filter = Inl (OtherException ''HTTP Error 429''),
      video_filter = Inl (OtherException ''HTTP Error 429''),
      audio_filter = Inl (OtherException ''HTTP Error 429'')\<rparr>"

definition yt_second_enumeration_fails :: YouTube where
  "yt_second_enumeration_fails =
     \<lparr>progressive_filter = Inr [example_video ''720p''],
      video_filter = Inl (OtherException ''HTTP Error 429''),
      audio_filter = Inr [example_audio ''128kbps'']\<rparr>"

definition example_video_unsized :: Stream where
  "example_video_unsized =
     (example_video ''480p'')\<lparr>filesize := Inl (OtherException ''HTTP Error 403: Forbidden'')\<rparr>"

definition yt_filesize_fails :: YouTube where
  "yt_filesize_fails =
     \<lparr>progressive_filter = Inr [example_video ''720p'', example_video_unsized],
      video_filter = Inr [example_video ''1080p''],
      audio_filter = Inr [example_audio ''128kbps'']\<rparr>"

definition yt_video_only :: YouTube where
  "yt_video_only =
     \<lparr>progressive_filter = Inr [], video_filter = Inr [example_video ''1080p''],
      audio_filter = Inr []\<rparr>"

text \<open>
  Example caches: capacity 2 and \<open>ttl\<close> 300, with \<^verbatim>\<open>'a'\<close> stored at time 0 and \<^verbatim>\<open>'b'\<close>
  at time 10.
\<close>

definition example_ops :: "(rat \<times> string \<times> int) list" where
  "example_ops = [(0, ''a'', 1), (10, ''b'', 2)]"

definition example_cache :: "(string, int) CacheManager" where
  "example_cache = set_all (CacheManager_init 300 2) example_ops"

section \<open>Outcomes of the merge tool\<close>




section \<open>Example runs of the merge tool\<close>

definition example_service :: FFmpegService where
  "example_service = \<lparr>timeout = 300, ffmpeg_executable = Some ''ffmpeg''\<rparr>"


definition tool_ok :: tool where
  "tool_ok =
     \<lparr>behaviour = Finishes 12 0 (Decoded []),
      effect = (\<lambda>fs. fs(''/tmp/m/out.mp4'' \<mapsto> 1100))\<rparr>"





section \<open>Example smart downloads\<close>

text \<open>
  A merge plan whose audio transfer leaves an empty file, a world in which the temporary
  directory can be removed, and one in which its removal fails.
\<close>

definition example_audio_empty :: Stream where
  "example_audio_empty = (example_audio ''128kbps'')\<lparr>download := Transfer (Some 0) None\<rparr>"

definition example_plan :: Selection where
  "example_plan =
     merge_selection (analysis_of_video ''video'' ''1080p'')
       (StreamAnalysis_init example_audio_empty ''audio''
          (calculate_audio_quality_score example_audio_empty) 5)
       ''High Quality Audio''"

definition example_environment :: "bool \<Rightarrow> environment" where
  "example_environment vfirst =
     \<lparr>smart_option = Some example_plan, yt_title = Inr (Some ''Test Video''),
      temp_name = Inr ''/tmp/ytdl_merge_1'', video_first = vfirst, ffmpeg = tool_ok\<rparr>"

definition clean_world :: world where
  "clean_world =
     \<lparr>files = Map.empty, dirs = {''/tmp''}, unremovable = {}, commands = [], processes = [],
      merge_calls = 0\<rparr>"

definition locked_world :: world where
  "locked_world = clean_world\<lparr>unremovable := {''/tmp/ytdl_merge_1''}\<rparr>"

definition yt_example :: YouTube where
  "yt_example =
     \<lparr>progressive_filter = Inr [example_video ''480p''],
      video_filter = Inr [example_video ''1080p''],
      audio_filter = Inr [example_audio ''128kbps'']\<rparr>"

section \<open>An analysis that is interrupted\<close>






section \<open>Properties\<close>

subsection \<open>Quality score\<close>

lemma extract_resolution_number_falsy:
  "\<not> truthy_str r \<Longrightarrow> extract_resolution_number r = 0"
  by (simp add: truthy_str_def extract_resolution_number_def split: option.splits)

lemma extract_audio_bitrate_falsy:
  "\<not> truthy_str r \<Longrightarrow> extract_audio_bitrate r = 0"
  by (simp add: truthy_str_def extract_audio_bitrate_def split: option.splits)

lemma video_resolution_score_tier:
  "480 \<le> extract_resolution_number (resolution s) \<Longrightarrow>
   video_resolution_score s = 200 * int (video_tier (extract_resolution_number (resolution s)))"
  using extract_resolution_number_falsy [of "resolution s"]
  by (auto simp: video_resolution_score_def video_tier_def dict_get_def VIDEO_SCORES_def Let_def)

lemma audio_bitrate_score_tier:
  "audio_bitrate_score s =
     (if 96 \<le> extract_audio_bitrate (abr s)
      then 50 + 50 * int (audio_tier (extract_audio_bitrate (abr s)))
      else extract_audio_bitrate (abr s))"
  using extract_audio_bitrate_falsy [of "abr s"]
  by (auto simp: audio_bitrate_score_def audio_tier_def dict_get_def AUDIO_SCORES_def Let_def)

lemma video_tier_mono: "r1 \<le> r2 \<Longrightarrow> video_tier r1 \<le> video_tier r2"
  by (simp add: video_tier_def)

lemma audio_tier_mono: "r1 \<le> r2 \<Longrightarrow> audio_tier r1 \<le> audio_tier r2"
  by (simp add: audio_tier_def)

lemma audio_tier_zero: "audio_tier b = 0 \<longleftrightarrow> b < 96"
  by (simp add: audio_tier_def)

text \<open>
  Claim C8. With frame rate and codec fixed, a video stream in a higher resolution tier
  (both resolutions at least 480) has a strictly higher score; with the codec fixed, an
  audio stream in a higher bitrate tier has a strictly higher score.
\<close>

theorem score_strictly_monotonic:
  "(fps v1 = fps v2 \<and> video_codec v1 = video_codec v2
      \<and> 480 \<le> extract_resolution_number (resolution v1)
      \<and> extract_resolution_number (resolution v1) < extract_resolution_number (resolution v2)
      \<and> video_tier (extract_resolution_number (resolution v1))
           \<noteq> video_tier (extract_resolution_number (resolution v2))
    \<longrightarrow> calculate_video_quality_score v1 < calculate_video_quality_score v2)
   \<and>
   (audio_codec a1 = audio_codec a2
      \<and> extract_audio_bitrate (abr a1) < extract_audio_bitrate (abr a2)
      \<and> audio_tier (extract_audio_bitrate (abr a1)) \<noteq> audio_tier (extract_audio_bitrate (abr a2))
    \<longrightarrow> calculate_audio_quality_score a1 < calculate_audio_quality_score a2)"
proof (intro conjI impI)
  assume h: "fps v1 = fps v2 \<and> video_codec v1 = video_codec v2
      \<and> 480 \<le> extract_resolution_number (resolution v1)
      \<and> extract_resolution_number (resolution v1) < extract_resolution_number (resolution v2)
      \<and> video_tier (extract_resolution_number (resolution v1))
           \<noteq> video_tier (extract_resolution_number (resolution v2))"
  let ?r1 = "extract_resolution_number (resolution v1)"
  let ?r2 = "extract_resolution_number (resolution v2)"
  from h have t: "video_tier ?r1 < video_tier ?r2"
    using video_tier_mono [of ?r1 ?r2] by simp
  from h have s1: "video_resolution_score v1 = 200 * int (video_tier ?r1)"
    and s2: "video_resolution_score v2 = 200 * int (video_tier ?r2)"
    by (simp_all add: video_resolution_score_tier)
  from h have same: "fps_score v1 = fps_score v2" "video_codec_score v1 = video_codec_score v2"
    by (simp_all add: fps_score_def video_codec_score_def)
  from t s1 s2 same show "calculate_video_quality_score v1 < calculate_video_quality_score v2"
    by (simp add: calculate_video_quality_score_def)
next
  assume h: "audio_codec a1 = audio_codec a2
      \<and> extract_audio_bitrate (abr a1) < extract_audio_bitrate (abr a2)
      \<and> audio_tier (extract_audio_bitrate (abr a1)) \<noteq> audio_tier (extract_audio_bitrate (abr a2))"
  let ?b1 = "extract_audio_bitrate (abr a1)"
  let ?b2 = "extract_audio_bitrate (abr a2)"
  from h have t: "audio_tier ?b1 < audio_tier ?b2"
    using audio_tier_mono [of ?b1 ?b2] by simp
  then have b2: "96 \<le> ?b2"
    using audio_tier_zero [of ?b2] by simp
  have "audio_bitrate_score a1 < audio_bitrate_score a2"
  proof (cases "96 \<le> ?b1")
    case True
    with t b2 show ?thesis by (simp add: audio_bitrate_score_tier)
  next
    case False
    then have "audio_bitrate_score a1 < 96" by (simp add: audio_bitrate_score_tier)
    moreover from b2 have "100 \<le> audio_bitrate_score a2"
      using audio_tier_zero [of ?b2] by (simp add: audio_bitrate_score_tier)
    ultimately show ?thesis by simp
  qed
  moreover from h have "audio_codec_score a1 = audio_codec_score a2"
    by (simp add: audio_codec_score_def)
  ultimately show "calculate_audio_quality_score a1 < calculate_audio_quality_score a2"
    by (simp add: calculate_audio_quality_score_def)
qed

lemma extract_resolution_number_examples:
  "extract_resolution_number (Some ''1080p'') = 1080"
  "extract_resolution_number (Some ''720p'') = 720"
  "extract_resolution_number (Some ''480p'') = 480"
  by (simp_all add: extract_resolution_number_def re_search_digits_def is_digit_def
      int_of_digits_def)

lemma extract_audio_bitrate_examples:
  "extract_audio_bitrate (Some ''128kbps'') = 128"
  "extract_audio_bitrate (Some ''256kbps'') = 256"
  by (simp_all add: extract_audio_bitrate_def re_search_digits_def is_digit_def
      int_of_digits_def)

theorem score_strictly_monotonic_witness:
  "480 \<le> extract_resolution_number (resolution (example_video ''720p''))
   \<and> extract_resolution_number (resolution (example_video ''720p''))
       < extract_resolution_number (resolution (example_video ''1080p''))
   \<and> video_tier 720 \<noteq> video_tier 1080
   \<and> calculate_video_quality_score (example_video ''720p'')
       < calculate_video_quality_score (example_video ''1080p'')
   \<and> extract_audio_bitrate (abr (example_audio ''128kbps''))
       < extract_audio_bitrate (abr (example_audio ''256kbps''))
   \<and> audio_tier 128 \<noteq> audio_tier 256
   \<and> calculate_audio_quality_score (example_audio ''128kbps'')
       < calculate_audio_quality_score (example_audio ''256kbps'')"
  using score_strictly_monotonic [of "example_video ''720p''" "example_video ''1080p''"
      "example_audio ''128kbps''" "example_audio ''256kbps''"]
  by (simp add: example_video_def example_audio_def extract_resolution_number_examples
      extract_audio_bitrate_examples video_tier_def audio_tier_def)

subsection \<open>Selection\<close>

lemma select_option_merge_first:
  assumes "video_streams \<noteq> []" and "audio_streams \<noteq> []"
    and "(of_int (extract_resolution_number (resolution (stream (hd video_streams)))) :: rat)
           > of_int (best_progressive_quality progressive_streams) * (3 / 2)
         \<or> best_progressive_quality progressive_streams < 720"
  shows "select_option progressive_streams video_streams audio_streams prefer_progressive
         = Some (merge_selection (hd video_streams) (hd audio_streams) ''High Quality Audio'')"
  using assms by (simp add: select_option_def Let_def)

text \<open>
  On any three lists: when the video-only and the audio-only lists are both non-empty, and
  the resolution of the first video-only stream exceeds 1.5 times the resolution of the
  first progressive stream (0 when there is none) or the latter is below 720, the selection
  is a merge plan of the first video-only and the first audio-only stream; its estimated
  size is the sum of their sizes and \<open>merge_required\<close> is set. The factor 1.5 and the sizes
  are exact rationals here.
\<close>

lemma merge_plan_when_video_only_is_better:
  assumes "video_streams \<noteq> []" and "audio_streams \<noteq> []"
    and "(of_int (extract_resolution_number (resolution (stream (hd video_streams)))) :: rat)
           > of_int (best_progressive_quality progressive_streams) * (3 / 2)
         \<or> best_progressive_quality progressive_streams < 720"
  shows "\<exists>plan.
           select_option progressive_streams video_streams audio_streams prefer_progressive
             = Some plan
         \<and> (analyze_streams yt = Inr (progressive_streams, video_streams, audio_streams)
              \<longrightarrow> smart_select_best_option yt prefer_progressive = Some plan)
         \<and> plan_type plan = ''merge''
         \<and> video_stream plan = stream (hd video_streams)
         \<and> audio_stream plan = Some (stream (hd audio_streams))
         \<and> estimated_size_mb plan = size_mb (hd video_streams) + size_mb (hd audio_streams)
         \<and> merge_required plan"
proof -
  let ?plan = "merge_selection (hd video_streams) (hd audio_streams) ''High Quality Audio''"
  have sel: "select_option progressive_streams video_streams audio_streams prefer_progressive
      = Some ?plan"
    using assms by (rule select_option_merge_first)
  have fields: "plan_type ?plan = ''merge''"
    "video_stream ?plan = stream (hd video_streams)"
    "audio_stream ?plan = Some (stream (hd audio_streams))"
    "estimated_size_mb ?plan = size_mb (hd video_streams) + size_mb (hd audio_streams)"
    "merge_required ?plan"
    by (simp_all add: merge_selection_def Let_def)
  have "analyze_streams yt = Inr (progressive_streams, video_streams, audio_streams)
      \<longrightarrow> smart_select_best_option yt prefer_progressive = Some ?plan"
    using sel by (simp add: smart_select_best_option_def)
  with sel fields show ?thesis by blast
qed

lemma merge_plan_example:
  "[analysis_of_video ''video'' ''1080p''] \<noteq> [] \<and> [analysis_of_audio ''128kbps''] \<noteq> []
   \<and> best_progressive_quality [analysis_of_video ''progressive'' ''480p''] < 720
   \<and> analyze_streams yt_example
       = Inr ([analysis_of_video ''progressive'' ''480p''],
              [analysis_of_video ''video'' ''1080p''], [analysis_of_audio ''128kbps''])
   \<and> map_option plan_type
        (select_option [analysis_of_video ''progressive'' ''480p'']
           [analysis_of_video ''video'' ''1080p''] [analysis_of_audio ''128kbps''] False)
       = Some ''merge''
   \<and> map_option plan_type (smart_select_best_option yt_example False) = Some ''merge''"
proof -
  have q: "best_progressive_quality [analysis_of_video ''progressive'' ''480p''] = 480"
    by (simp add: best_progressive_quality_def analysis_of_video_def StreamAnalysis_init_def
        example_video_def extract_resolution_number_examples)
  have an: "analyze_streams yt_example
       = Inr ([analysis_of_video ''progressive'' ''480p''],
              [analysis_of_video ''video'' ''1080p''], [analysis_of_audio ''128kbps''])"
    by (simp add: analyze_streams_def analyze_try_def yt_example_def truthy_str_def
        get_file_size_mb_def sort_by_score_def analysis_of_video_def analysis_of_audio_def
        example_video_def example_audio_def)
  from merge_plan_when_video_only_is_better
      [of "[analysis_of_video ''video'' ''1080p'']" "[analysis_of_audio ''128kbps'']"
          "[analysis_of_video ''progressive'' ''480p'']" False yt_example]
  obtain plan where "select_option [analysis_of_video ''progressive'' ''480p'']
           [analysis_of_video ''video'' ''1080p''] [analysis_of_audio ''128kbps''] False
        = Some plan"
    and "smart_select_best_option yt_example False = Some plan"
    and "plan_type plan = ''merge''"
    using q an by auto
  then show ?thesis using q an by simp
qed
















text \<open>
  Claim C2 as stated fails: with one video-only stream and no audio-only and no progressive
  stream, not all lists are empty, and yet nothing is selected.
\<close>

theorem select_not_found_counterexample:
  "select_option [] [analysis_of_video ''video'' ''1080p''] [] False = None
   \<and> \<not> ([] = ([] :: StreamAnalysis list) \<and> [analysis_of_video ''video'' ''1080p''] = []
          \<and> [] = ([] :: StreamAnalysis list))"
  by (simp add: select_option_def)

text \<open>
  Claim C2, amended. The selection is \<open>None\<close> exactly when there is no progressive stream
  and the video-only list or the audio-only list is empty.
\<close>

theorem select_not_found_iff:
  "(select_option progressive_streams video_streams audio_streams prefer_progressive = None
      \<longleftrightarrow> progressive_streams = [] \<and> (video_streams = [] \<or> audio_streams = []))
   \<and> (analyze_streams yt = Inr (progressive_streams, video_streams, audio_streams) \<longrightarrow>
        (smart_select_best_option yt prefer_progressive = None
           \<longleftrightarrow> progressive_streams = [] \<and> (video_streams = [] \<or> audio_streams = [])))"
proof -
  have a: "select_option progressive_streams video_streams audio_streams prefer_progressive = None
      \<longleftrightarrow> progressive_streams = [] \<and> (video_streams = [] \<or> audio_streams = [])"
    by (auto simp: select_option_def)
  then show ?thesis by (simp add: smart_select_best_option_def)
qed

subsection \<open>Analyzer\<close>

lemma get_file_size_mb_examples:
  "get_file_size_mb (example_video r) = Inr 25"
  "get_file_size_mb (example_audio b) = Inr 5"
  by (simp_all add: get_file_size_mb_def example_video_def example_audio_def)

lemma truthy_resolution_example_video: "r \<noteq> [] \<Longrightarrow> truthy_str (resolution (example_video r))"
  by (simp add: truthy_str_def example_video_def)

lemma analyze_streams_yt_video_only:
  "analyze_streams yt_video_only = Inr ([], [analysis_of_video ''video'' ''1080p''], [])"
  by (simp add: analyze_streams_def analyze_try_def yt_video_only_def
      truthy_resolution_example_video get_file_size_mb_examples sort_by_score_def
      analysis_of_video_def)

theorem select_not_found_iff_witness:
  "analyze_streams yt_video_only = Inr ([], [analysis_of_video ''video'' ''1080p''], [])
   \<and> smart_select_best_option yt_video_only False = None"
  using select_not_found_iff [of "[]" "[analysis_of_video ''video'' ''1080p'']" "[]" False
      yt_video_only]
  by (simp add: analyze_streams_yt_video_only)

text \<open>
  Claim C9 as stated fails: when the second enumeration raises after a progressive stream
  has been analysed, or when reading the size of the second progressive stream raises, the
  analyzer returns the analysis of the first stream, not three empty lists.
\<close>

theorem analyze_streams_partial_counterexample:
  "fst (analyze_try yt_second_enumeration_fails) = Some (OtherException ''HTTP Error 429'')
   \<and> analyze_streams yt_second_enumeration_fails
       = Inr ([analysis_of_video ''progressive'' ''720p''], [], [])
   \<and> analyze_streams yt_second_enumeration_fails \<noteq> Inr ([], [], [])
   \<and> fst (analyze_try yt_filesize_fails) = Some (OtherException ''HTTP Error 403: Forbidden'')
   \<and> analyze_streams yt_filesize_fails
       = Inr ([analysis_of_video ''progressive'' ''720p''], [], [])"
  by (simp add: analyze_streams_def analyze_try_def yt_second_enumeration_fails_def
      yt_filesize_fails_def example_video_unsized_def
      truthy_resolution_example_video get_file_size_mb_examples analysis_of_video_def)
    (simp add: get_file_size_mb_def truthy_str_def example_video_def)

text \<open>
  Claim C9, amended. The analyzer never raises: it returns the three lists as the
  \<^verbatim>\<open>try\<close> block has left them. On three empty enumerations these are three empty lists,
  and so they are when the first enumeration raises.
\<close>

theorem analyze_streams_never_raises:
  "analyze_streams yt = Inr (snd (analyze_try yt))
   \<and> (progressive_filter yt = Inr [] \<and> video_filter yt = Inr [] \<and> audio_filter yt = Inr []
        \<longrightarrow> analyze_streams yt = Inr ([], [], []))
   \<and> (\<forall>e. progressive_filter yt = Inl e \<longrightarrow> analyze_streams yt = Inr ([], [], []))"
proof (intro conjI impI allI)
  show "analyze_streams yt = Inr (snd (analyze_try yt))"
    by (cases "analyze_try yt") (auto simp: analyze_streams_def split: option.splits)
next
  assume "progressive_filter yt = Inr [] \<and> video_filter yt = Inr [] \<and> audio_filter yt = Inr []"
  then show "analyze_streams yt = Inr ([], [], [])"
    by (simp add: analyze_streams_def analyze_try_def sort_by_score_def)
next
  fix e
  assume "progressive_filter yt = Inl e"
  then show "analyze_streams yt = Inr ([], [], [])"
    by (simp add: analyze_streams_def analyze_try_def)
qed

theorem analyze_streams_never_raises_witness:
  "progressive_filter yt_unreachable = Inl (OtherException ''HTTP Error 429'')
   \<and> analyze_streams yt_unreachable = Inr ([], [], [])
   \<and> progressive_filter yt_empty = Inr [] \<and> video_filter yt_empty = Inr []
   \<and> audio_filter yt_empty = Inr []
   \<and> analyze_streams yt_empty = Inr ([], [], [])"
proof -
  have a: "progressive_filter yt_unreachable = Inl (OtherException ''HTTP Error 429'')"
    by (simp add: yt_unreachable_def)
  have b: "progressive_filter yt_empty = Inr [] \<and> video_filter yt_empty = Inr []
      \<and> audio_filter yt_empty = Inr []"
    by (simp add: yt_empty_def)
  from a have c: "analyze_streams yt_unreachable = Inr ([], [], [])"
    using analyze_streams_never_raises [of yt_unreachable] by blast
  from b have d: "analyze_streams yt_empty = Inr ([], [], [])"
    using analyze_streams_never_raises [of yt_empty] by blast
  from a b c d show ?thesis by simp
qed

subsection \<open>Cache: lookup and expiry\<close>

lemma map_of_dict_delitem:
  "map_of (dict_delitem d k) k' = (if k' = k then None else map_of d k')"
  by (induction d) (auto simp: dict_delitem_def)

lemma map_of_fold_dict_delitem:
  "map_of (fold (\<lambda>key d. dict_delitem d key) ks d) k = (if k \<in> set ks then None else map_of d k)"
  by (induction ks arbitrary: d) (auto simp: map_of_dict_delitem)

lemma dict_ok_map_of: "dict_ok d \<Longrightarrow> (k, v) \<in> set d \<Longrightarrow> map_of d k = Some v"
  by (simp add: dict_ok_def)

text \<open>
  Claim C6. \<^verbatim>\<open>get\<close> on a key that is present and younger than \<open>ttl\<close> returns the stored
  value and adds one to \<open>hits\<close>; on a key that is present with age at least \<open>ttl\<close> it
  removes the entry, returns a miss and adds one to \<open>misses\<close>; on an absent key it returns
  a miss and adds one to \<open>misses\<close>. The other counter and, in the first and third case,
  the entries are unchanged.
\<close>

theorem get_semantics:
  "(map_of (cache self) key = Some e \<and> now - timestamp e < of_int (ttl self) \<longrightarrow>
      CacheManager_get self now key
        = (Some (data e), self\<lparr>stats := (stats self)\<lparr>hits := hits (stats self) + 1\<rparr>\<rparr>)
      \<and> cache (snd (CacheManager_get self now key)) = cache self
      \<and> hits (stats (snd (CacheManager_get self now key))) = hits (stats self) + 1
      \<and> misses (stats (snd (CacheManager_get self now key))) = misses (stats self))
   \<and> (map_of (cache self) key = Some e \<and> now - timestamp e \<ge> of_int (ttl self) \<longrightarrow>
      fst (CacheManager_get self now key) = None
      \<and> cache (snd (CacheManager_get self now key)) = dict_delitem (cache self) key
      \<and> map_of (cache (snd (CacheManager_get self now key))) key = None
      \<and> hits (stats (snd (CacheManager_get self now key))) = hits (stats self)
      \<and> misses (stats (snd (CacheManager_get self now key))) = misses (stats self) + 1)
   \<and> (map_of (cache self) key = None \<longrightarrow>
      fst (CacheManager_get self now key) = None
      \<and> cache (snd (CacheManager_get self now key)) = cache self
      \<and> hits (stats (snd (CacheManager_get self now key))) = hits (stats self)
      \<and> misses (stats (snd (CacheManager_get self now key))) = misses (stats self) + 1)"
proof (intro conjI impI)
  assume "map_of (cache self) key = Some e \<and> now - timestamp e < of_int (ttl self)"
  then have hit: "CacheManager_get self now key
      = (Some (data e), self\<lparr>stats := (stats self)\<lparr>hits := hits (stats self) + 1\<rparr>\<rparr>)"
    by (simp add: CacheManager_get_def)
  then show "CacheManager_get self now key
      = (Some (data e), self\<lparr>stats := (stats self)\<lparr>hits := hits (stats self) + 1\<rparr>\<rparr>)" .
  from hit show "cache (snd (CacheManager_get self now key)) = cache self"
    and "hits (stats (snd (CacheManager_get self now key))) = hits (stats self) + 1"
    and "misses (stats (snd (CacheManager_get self now key))) = misses (stats self)"
    by simp_all
next
  assume "map_of (cache self) key = Some e \<and> now - timestamp e \<ge> of_int (ttl self)"
  then have expired: "CacheManager_get self now key
      = (None, self\<lparr>cache := dict_delitem (cache self) key,
                     stats := (stats self)\<lparr>misses := misses (stats self) + 1\<rparr>\<rparr>)"
    by (simp add: CacheManager_get_def)
  then show "fst (CacheManager_get self now key) = None"
    and "cache (snd (CacheManager_get self now key)) = dict_delitem (cache self) key"
    and "map_of (cache (snd (CacheManager_get self now key))) key = None"
    and "hits (stats (snd (CacheManager_get self now key))) = hits (stats self)"
    and "misses (stats (snd (CacheManager_get self now key))) = misses (stats self) + 1"
    by (simp_all add: map_of_dict_delitem)
next
  assume "map_of (cache self) key = None"
  then have absent: "CacheManager_get self now key
      = (None, self\<lparr>stats := (stats self)\<lparr>misses := misses (stats self) + 1\<rparr>\<rparr>)"
    by (simp add: CacheManager_get_def)
  then show "fst (CacheManager_get self now key) = None"
    and "cache (snd (CacheManager_get self now key)) = cache self"
    and "hits (stats (snd (CacheManager_get self now key))) = hits (stats self)"
    and "misses (stats (snd (CacheManager_get self now key))) = misses (stats self) + 1"
    by simp_all
qed

lemma cleanup_keeps_boundary_entry:
  assumes ok: "dict_ok (cache self)"
    and present: "map_of (cache self) key = Some e"
    and age: "now - timestamp e \<le> of_int (ttl self)"
  shows "map_of (cache (snd (CacheManager_cleanup_expired self now))) key = Some e"
proof -
  let ?expired = "map fst (filter (\<lambda>(k, v). now - timestamp v > of_int (ttl self)) (cache self))"
  have "key \<notin> set ?expired"
  proof
    assume "key \<in> set ?expired"
    then obtain v where v: "(key, v) \<in> set (cache self)" "now - timestamp v > of_int (ttl self)"
      by auto
    from ok v(1) have "map_of (cache self) key = Some v" by (rule dict_ok_map_of)
    with present have "v = e" by simp
    with v(2) age show False by simp
  qed
  then have "map_of (fold (\<lambda>key d. dict_delitem d key) ?expired (cache self)) key = Some e"
    using present by (simp add: map_of_fold_dict_delitem)
  then show ?thesis
    using present by (auto simp: CacheManager_cleanup_expired_def Let_def)
qed

lemma cleanup_misses:
  "misses (stats (snd (CacheManager_cleanup_expired self now))) = misses (stats self)"
  by (simp add: CacheManager_cleanup_expired_def Let_def)

lemma cleanup_ttl:
  "ttl (snd (CacheManager_cleanup_expired self now)) = ttl self"
  by (simp add: CacheManager_cleanup_expired_def Let_def)

text \<open>
  Claim C10. In a dictionary (each key once), an entry whose age equals \<open>ttl\<close> survives \<^verbatim>\<open>cleanup_expired\<close> (which
  removes only entries older than \<open>ttl\<close>), and the next \<^verbatim>\<open>get\<close> at the same time is a
  miss that removes it (valid means younger than \<open>ttl\<close>).
\<close>

theorem expiry_boundary_inconsistent:
  assumes "dict_ok (cache self)"
    and "map_of (cache self) key = Some e"
    and "now - timestamp e = of_int (ttl self)"
  shows "map_of (cache (snd (CacheManager_cleanup_expired self now))) key = Some e
    \<and> fst (CacheManager_get (snd (CacheManager_cleanup_expired self now)) now key) = None
    \<and> map_of (cache (snd (CacheManager_get (snd (CacheManager_cleanup_expired self now)) now key)))
          key = None
    \<and> misses (stats (snd (CacheManager_get (snd (CacheManager_cleanup_expired self now)) now key)))
        = misses (stats self) + 1
    \<and> fst (CacheManager_get self now key) = None"
proof -
  let ?swept = "snd (CacheManager_cleanup_expired self now)"
  have kept: "map_of (cache ?swept) key = Some e"
    using assms by (simp add: cleanup_keeps_boundary_entry)
  have old: "now - timestamp e \<ge> of_int (ttl ?swept)"
    using assms(3) by (simp add: cleanup_ttl)
  from kept old have "fst (CacheManager_get ?swept now key) = None"
    and "map_of (cache (snd (CacheManager_get ?swept now key))) key = None"
    and "misses (stats (snd (CacheManager_get ?swept now key))) = misses (stats ?swept) + 1"
    by (simp_all add: CacheManager_get_def map_of_dict_delitem)
  moreover have "fst (CacheManager_get self now key) = None"
    using assms by (simp add: CacheManager_get_def)
  ultimately show ?thesis using kept by (simp add: cleanup_misses)
qed

subsection \<open>Cache: capacity\<close>

lemma dict_setitem_new: "k \<notin> fst ` set d \<Longrightarrow> dict_setitem d k v = d @ [(k, v)]"
  by (induction d) auto

lemma length_dict_setitem: "length (dict_setitem d k v) \<le> Suc (length d)"
  by (induction d) auto

lemma py_min_key_mem: "py_min_key f b xs \<in> set (b # xs)"
  by (induction xs arbitrary: b) (auto split: if_splits)

lemma py_min_key_le_best: "f (py_min_key f b xs) \<le> f b"
proof (induction xs arbitrary: b)
  case Nil
  then show ?case by simp
next
  case (Cons x xs)
  have "f (py_min_key f (if f x < f b then x else b) xs) \<le> f (if f x < f b then x else b)"
    by (rule Cons.IH)
  then show ?case by (auto split: if_splits)
qed

lemma py_min_key_le: "x \<in> set (b # xs) \<Longrightarrow> f (py_min_key f b xs) \<le> f x"
proof (induction xs arbitrary: b)
  case Nil
  then show ?case by simp
next
  case (Cons y ys)
  let ?b' = "if f y < f b then y else b"
  have le_b': "f (py_min_key f ?b' ys) \<le> f ?b'" by (rule py_min_key_le_best)
  from Cons.prems consider "x = b" | "x = y" | "x \<in> set ys" by auto
  then show ?case
  proof cases
    case 1
    with le_b' show ?thesis by (auto split: if_splits)
  next
    case 2
    with le_b' show ?thesis by (auto split: if_splits)
  next
    case 3
    then have "x \<in> set (?b' # ys)" by simp
    then have "f (py_min_key f ?b' ys) \<le> f x" by (rule Cons.IH)
    then show ?thesis by simp
  qed
qed

lemma length_dict_delitem_present:
  "k \<in> fst ` set d \<Longrightarrow> length (dict_delitem d k) < length d"
proof -
  assume "k \<in> fst ` set d"
  then obtain p where "p \<in> set d" "\<not> fst p \<noteq> k" by auto
  then have "length (filter (\<lambda>p. fst p \<noteq> k) d) < length d"
    by (rule length_filter_less)
  then show ?thesis by (simp add: dict_delitem_def)
qed

lemma length_dict_delitem_distinct:
  "distinct (map fst d) \<Longrightarrow> k \<in> fst ` set d \<Longrightarrow> Suc (length (dict_delitem d k)) = length d"
proof (induction d)
  case Nil
  then show ?case by simp
next
  case (Cons p ps)
  show ?case
  proof (cases "fst p = k")
    case True
    with Cons.prems have "k \<notin> fst ` set ps" by auto
    then have "filter (\<lambda>q. fst q \<noteq> k) ps = ps" by (auto simp: filter_id_conv)
    with True show ?thesis by (simp add: dict_delitem_def)
  next
    case False
    with Cons show ?thesis by (auto simp: dict_delitem_def)
  qed
qed

text \<open>What an eviction from a non-empty cache does.\<close>

lemma evict_oldest_nonempty:
  assumes "cache s \<noteq> []"
  shows "\<exists>k_e \<in> fst ` set (cache s).
           CacheManager_evict_oldest s
             = s\<lparr>cache := dict_delitem (cache s) k_e,
                 stats := (stats s)\<lparr>evictions := evictions (stats s) + 1\<rparr>\<rparr>
         \<and> (\<forall>k \<in> fst ` set (cache s).
               timestamp (the (map_of (cache s) k_e)) \<le> timestamp (the (map_of (cache s) k)))"
proof -
  from assms obtain k ks where ks: "map fst (cache s) = k # ks"
    by (cases "cache s") auto
  let ?f = "\<lambda>k'. timestamp (the (map_of (cache s) k'))"
  let ?k = "py_min_key ?f k ks"
  have set_eq: "set (k # ks) = fst ` set (cache s)"
    using ks by (metis set_map)
  have "?k \<in> set (k # ks)" by (rule py_min_key_mem)
  then have "?k \<in> fst ` set (cache s)"
    unfolding set_eq .
  moreover have "CacheManager_evict_oldest s
      = s\<lparr>cache := dict_delitem (cache s) ?k,
          stats := (stats s)\<lparr>evictions := evictions (stats s) + 1\<rparr>\<rparr>"
    using ks by (simp add: CacheManager_evict_oldest_def Let_def)
  moreover have "\<forall>k' \<in> fst ` set (cache s). ?f ?k \<le> ?f k'"
    using py_min_key_le [of _ k ks ?f] set_eq by blast
  ultimately show ?thesis by blast
qed

lemma max_size_set [simp]: "max_size (CacheManager_set s now k v) = max_size s"
  by (simp add: CacheManager_set_def CacheManager_evict_oldest_def Let_def split: list.splits)

lemma set_size_bound:
  assumes "1 \<le> max_size s" and "int (length (cache s)) \<le> max_size s"
  shows "int (length (cache (CacheManager_set s now k v))) \<le> max_size s"
proof (cases "int (length (cache s)) \<ge> max_size s")
  case True
  with assms have ne: "cache s \<noteq> []" by auto
  then obtain k_e where k_e: "k_e \<in> fst ` set (cache s)"
    "CacheManager_evict_oldest s
       = s\<lparr>cache := dict_delitem (cache s) k_e,
           stats := (stats s)\<lparr>evictions := evictions (stats s) + 1\<rparr>\<rparr>"
    using evict_oldest_nonempty [of s] by blast
  have "length (dict_delitem (cache s) k_e) < length (cache s)"
    using k_e(1) by (rule length_dict_delitem_present)
  moreover have "length (dict_setitem (dict_delitem (cache s) k_e) k \<lparr>timestamp = now, data = v\<rparr>)
      \<le> Suc (length (dict_delitem (cache s) k_e))"
    by (rule length_dict_setitem)
  ultimately show ?thesis
    using True assms k_e(2) by (simp add: CacheManager_set_def Let_def)
next
  case False
  have "length (dict_setitem (cache s) k \<lparr>timestamp = now, data = v\<rparr>) \<le> Suc (length (cache s))"
    by (rule length_dict_setitem)
  with False show ?thesis by (simp add: CacheManager_set_def Let_def)
qed

lemma set_all_snoc: "set_all s (ops @ [op]) = (case op of (now, key, dat) \<Rightarrow>
    CacheManager_set (set_all s ops) now key dat)"
  by (simp add: set_all_def split: prod.splits)

lemma max_size_set_all [simp]: "max_size (set_all s ops) = max_size s"
  by (induction ops rule: rev_induct) (auto simp: set_all_snoc set_all_def split: prod.splits)

lemma set_all_size_bound:
  "1 \<le> max_size s \<Longrightarrow> int (length (cache s)) \<le> max_size s
    \<Longrightarrow> int (length (cache (set_all s ops))) \<le> max_size s"
proof (induction ops rule: rev_induct)
  case Nil
  then show ?case by (simp add: set_all_def)
next
  case (snoc op ops)
  obtain now key dat where op: "op = (now, key, dat)" by (cases op) auto
  from snoc have "int (length (cache (set_all s ops))) \<le> max_size (set_all s ops)" by simp
  moreover from snoc.prems have "1 \<le> max_size (set_all s ops)" by simp
  ultimately have "int (length (cache (CacheManager_set (set_all s ops) now key dat)))
      \<le> max_size (set_all s ops)"
    by (rule set_size_bound [rotated])
  then show ?case by (simp add: set_all_snoc op)
qed

text \<open>Below the capacity, new keys are appended and nothing is evicted.\<close>

lemma set_all_fill:
  assumes "distinct (map (\<lambda>op. fst (snd op)) ops)"
    and "int (length ops) \<le> max_size s"
    and "cache s = []"
  shows "cache (set_all s ops) = map entry_of ops
       \<and> evictions (stats (set_all s ops)) = evictions (stats s)"
  using assms
proof (induction ops rule: rev_induct)
  case Nil
  then show ?case by (simp add: set_all_def)
next
  case (snoc op ops)
  obtain now key dat where op: "op = (now, key, dat)" by (cases op) auto
  from snoc.prems have d: "distinct (map (\<lambda>op. fst (snd op)) ops)" and fresh: "key \<notin> (\<lambda>op. fst (snd op)) ` set ops"
    and small: "int (length ops) < max_size s"
    by (auto simp: op)
  from snoc.IH d small snoc.prems(3)
  have ih: "cache (set_all s ops) = map entry_of ops"
    "evictions (stats (set_all s ops)) = evictions (stats s)"
    by simp_all
  have keys: "fst ` set (map entry_of ops) = (\<lambda>op. fst (snd op)) ` set ops"
    by (force simp: entry_of_def split: prod.splits)
  from fresh keys have "key \<notin> fst ` set (cache (set_all s ops))" by (simp add: ih)
  then have app: "dict_setitem (cache (set_all s ops)) key \<lparr>timestamp = now, data = dat\<rparr>
      = cache (set_all s ops) @ [(key, \<lparr>timestamp = now, data = dat\<rparr>)]"
    by (rule dict_setitem_new)
  from small ih have "\<not> int (length (cache (set_all s ops))) \<ge> max_size (set_all s ops)"
    by simp
  then show ?case
    using app ih by (simp add: set_all_snoc op CacheManager_set_def Let_def entry_of_def)
qed


lemma keys_entry_of: "map fst (map entry_of ops) = map (\<lambda>op. fst (snd op)) ops"
  by (simp add: entry_of_def split: prod.splits)

lemma map_of_entry_of:
  assumes "distinct (map (\<lambda>op. fst (snd op)) ops)" and "op \<in> set ops"
  shows "map_of (map entry_of ops) (fst (snd op)) = Some (snd (entry_of op))"
proof -
  have "distinct (map fst (map entry_of ops))"
    using assms(1) by (simp only: keys_entry_of)
  moreover have "(fst (snd op), snd (entry_of op)) \<in> set (map entry_of ops)"
    using assms(2) by (force simp: entry_of_def split: prod.splits)
  ultimately show ?thesis by (rule map_of_is_SomeI)
qed

lemma timestamp_entry_of: "timestamp (snd (entry_of op)) = fst op"
  by (simp add: entry_of_def split: prod.splits)

lemma eviction_after_fill:
  assumes m: "1 \<le> m" and len: "length ops = nat m + 1"
    and dist: "distinct (map (\<lambda>op. fst (snd op)) ops)"
  shows "\<exists>op_e \<in> set (butlast ops).
           cache (set_all (CacheManager_init t m) ops)
             = dict_delitem (map entry_of (butlast ops)) (fst (snd op_e)) @ [entry_of (last ops)]
         \<and> evictions (stats (set_all (CacheManager_init t m) ops)) = 1
         \<and> (\<forall>op \<in> set (butlast ops). fst op_e \<le> fst op)"
proof -
  from len have ne: "ops \<noteq> []" by auto
  define front where "front = butlast ops"
  define lst where "lst = last ops"
  from ne have ops: "ops = front @ [lst]" by (simp add: front_def lst_def)
  obtain now key dat where lst: "lst = (now, key, dat)" by (cases lst) auto
  let ?s0 = "CacheManager_init t m :: ('a, 'b) CacheManager"
  let ?s1 = "set_all ?s0 front"
  from len ops m have flen: "int (length front) = m" by simp
  from dist ops have fdist: "distinct (map (\<lambda>op. fst (snd op)) front)"
    and fresh: "key \<notin> (\<lambda>op. fst (snd op)) ` set front"
    by (auto simp: lst)
  have "cache ?s1 = map entry_of front \<and> evictions (stats ?s1) = evictions (stats ?s0)"
    using fdist flen by (intro set_all_fill) (simp_all add: CacheManager_init_def)
  then have c1: "cache ?s1 = map entry_of front" and e1: "evictions (stats ?s1) = 0"
    by (simp_all add: CacheManager_init_def)
  from flen m have "cache ?s1 \<noteq> []" by (auto simp: c1)
  then obtain k_e where k_e: "k_e \<in> fst ` set (cache ?s1)"
    and ev: "CacheManager_evict_oldest ?s1
       = ?s1\<lparr>cache := dict_delitem (cache ?s1) k_e,
             stats := (stats ?s1)\<lparr>evictions := evictions (stats ?s1) + 1\<rparr>\<rparr>"
    and least: "\<forall>k \<in> fst ` set (cache ?s1).
        timestamp (the (map_of (cache ?s1) k_e)) \<le> timestamp (the (map_of (cache ?s1) k))"
    using evict_oldest_nonempty [of ?s1] by blast
  have keys: "fst ` set (cache ?s1) = (\<lambda>op. fst (snd op)) ` set front"
    using keys_entry_of [of front] by (metis c1 set_map)
  from k_e keys obtain op_e where op_e: "op_e \<in> set front" "fst (snd op_e) = k_e" by auto
  have ts: "timestamp (the (map_of (cache ?s1) (fst (snd op)))) = fst op" if "op \<in> set front" for op
    using map_of_entry_of [OF fdist that] by (simp add: c1 timestamp_entry_of)
  have min: "\<forall>op \<in> set front. fst op_e \<le> fst op"
  proof
    fix op assume op: "op \<in> set front"
    then have "fst (snd op) \<in> fst ` set (cache ?s1)" using keys by auto
    with least have "timestamp (the (map_of (cache ?s1) k_e))
        \<le> timestamp (the (map_of (cache ?s1) (fst (snd op))))" by blast
    then show "fst op_e \<le> fst op" using ts [OF op] ts [OF op_e(1)] op_e(2) by simp
  qed
  have "key \<notin> fst ` set (dict_delitem (cache ?s1) k_e)"
    using fresh keys by (auto simp: dict_delitem_def)
  then have app: "dict_setitem (dict_delitem (cache ?s1) k_e) key \<lparr>timestamp = now, data = dat\<rparr>
      = dict_delitem (cache ?s1) k_e @ [(key, \<lparr>timestamp = now, data = dat\<rparr>)]"
    by (rule dict_setitem_new)
  have ms: "max_size ?s1 = m" by (simp add: CacheManager_init_def)
  have full: "int (length (cache ?s1)) \<ge> max_size ?s1"
    unfolding c1 ms using flen by simp
  have final: "set_all ?s0 ops = CacheManager_set ?s1 now key dat"
    by (simp add: ops set_all_snoc lst)
  have "cache (set_all ?s0 ops) = dict_delitem (map entry_of front) k_e @ [entry_of lst]"
    using full ev app unfolding final
    by (simp add: CacheManager_set_def Let_def c1 entry_of_def lst)
  moreover have "evictions (stats (set_all ?s0 ops)) = 1"
    using full ev e1 unfolding final by (simp add: CacheManager_set_def Let_def)
  ultimately show ?thesis
    using op_e min unfolding front_def lst_def by blast
qed


lemma eviction_after_fill_entries:
  assumes m: "1 \<le> m" and len: "length ops = nat m + 1"
    and dist: "distinct (map (\<lambda>op. fst (snd op)) ops)"
  shows "int (length (cache (set_all (CacheManager_init t m) ops))) = m
     \<and> evictions (stats (set_all (CacheManager_init t m) ops)) = 1
     \<and> (\<exists>op_e \<in> set (butlast ops).
           map_of (cache (set_all (CacheManager_init t m) ops)) (fst (snd op_e)) = None
         \<and> (\<forall>op \<in> set (butlast ops). fst op_e \<le> fst op)
         \<and> (sorted (map fst ops) \<longrightarrow> (\<forall>op \<in> set ops. fst op_e \<le> fst op))
         \<and> (\<forall>op \<in> set ops. op \<noteq> op_e \<longrightarrow>
               map_of (cache (set_all (CacheManager_init t m) ops)) (fst (snd op))
                 = Some (snd (entry_of op))))"
proof -
  let ?final = "set_all (CacheManager_init t m) ops"
  from len have ne: "ops \<noteq> []" by auto
  define front where "front = butlast ops"
  define lst where "lst = last ops"
  from ne have ops: "ops = front @ [lst]" by (simp add: front_def lst_def)
  from len ops m have flen: "int (length front) = m" by simp
  from dist ops have fdist: "distinct (map (\<lambda>op. fst (snd op)) front)"
    and fresh: "fst (snd lst) \<notin> (\<lambda>op. fst (snd op)) ` set front"
    by auto
  from eviction_after_fill [OF m len dist, of t]
  obtain op_e where op_e: "op_e \<in> set front"
    and F: "cache ?final = dict_delitem (map entry_of front) (fst (snd op_e)) @ [entry_of lst]"
    and ev: "evictions (stats ?final) = 1"
    and min: "\<forall>op \<in> set front. fst op_e \<le> fst op"
    unfolding front_def lst_def by blast
  let ?k = "fst (snd op_e)"
  have key_lst: "fst (entry_of lst) = fst (snd lst)"
    by (simp add: entry_of_def split: prod.splits)
  have present: "?k \<in> fst ` set (map entry_of front)"
    using op_e keys_entry_of [of front] by (metis (no_types, lifting) image_eqI set_map)
  have "distinct (map fst (map entry_of front))"
    using fdist by (simp only: keys_entry_of)
  then have "Suc (length (dict_delitem (map entry_of front) ?k)) = length (map entry_of front)"
    using present by (rule length_dict_delitem_distinct)
  with flen have size: "int (length (cache ?final)) = m" by (simp add: F)
  from fresh op_e have ne_lst: "?k \<noteq> fst (snd lst)" by (metis image_eqI)
  have lookup: "map_of (cache ?final) k
      = (if k = ?k then (if k = fst (snd lst) then Some (snd (entry_of lst)) else None)
         else (case map_of (map entry_of front) k of
                 Some e \<Rightarrow> Some e
               | None \<Rightarrow> if k = fst (snd lst) then Some (snd (entry_of lst)) else None))" for k
    by (cases "entry_of lst")
      (auto simp: F map_add_def map_of_dict_delitem key_lst [symmetric] split: option.splits)
  have gone: "map_of (cache ?final) ?k = None"
    using ne_lst by (simp add: lookup)
  have srt: "sorted (map fst ops) \<longrightarrow> (\<forall>op \<in> set ops. fst op_e \<le> fst op)"
  proof
    assume "sorted (map fst ops)"
    then have "\<forall>op \<in> set front. fst op \<le> fst lst"
      by (auto simp: ops sorted_append)
    with op_e have "fst op_e \<le> fst lst" by blast
    with min show "\<forall>op \<in> set ops. fst op_e \<le> fst op" by (auto simp: ops)
  qed
  have others: "\<forall>op \<in> set ops. op \<noteq> op_e \<longrightarrow>
      map_of (cache ?final) (fst (snd op)) = Some (snd (entry_of op))"
  proof (intro ballI impI)
    fix op assume op: "op \<in> set ops" "op \<noteq> op_e"
    show "map_of (cache ?final) (fst (snd op)) = Some (snd (entry_of op))"
    proof (cases "op \<in> set front")
      case True
      with op(2) op_e fdist have "fst (snd op) \<noteq> ?k"
        by (metis distinct_map inj_onD)
      moreover from True have "map_of (map entry_of front) (fst (snd op)) = Some (snd (entry_of op))"
        using fdist by (simp add: map_of_entry_of)
      ultimately show ?thesis by (simp add: lookup)
    next
      case False
      with op(1) have eq: "op = lst" by (simp add: ops)
      have "fst (snd lst) \<notin> fst ` set (map entry_of front)"
        using fresh keys_entry_of [of front] by (metis set_map)
      then have "map_of (map entry_of front) (fst (snd lst)) = None"
        by (simp add: map_of_eq_None_iff)
      with ne_lst show ?thesis by (simp add: lookup eq)
    qed
  qed
  from size ev op_e gone min srt others show ?thesis
    unfolding front_def by blast
qed

text \<open>
  Claim C5, amended: for a capacity of at least 1. Storing \<open>max_size + 1\<close> distinct keys
  into a fresh cache leaves exactly \<open>max_size\<close> entries; exactly one entry has been
  evicted, its timestamp is the smallest of the entries in the cache at that moment (and of
  all entries when the clock does not go back), and every other entry is still there. The
  size never exceeds \<open>max_size\<close> after a \<^verbatim>\<open>set\<close>.
\<close>

theorem capacity_eviction:
  "(1 \<le> m \<and> length ops = nat m + 1 \<and> distinct (map (\<lambda>op. fst (snd op)) ops) \<longrightarrow>
      int (length (cache (set_all (CacheManager_init t m) ops))) = m
    \<and> evictions (stats (set_all (CacheManager_init t m) ops)) = 1
    \<and> (\<exists>op_e \<in> set (butlast ops).
           map_of (cache (set_all (CacheManager_init t m) ops)) (fst (snd op_e)) = None
         \<and> (\<forall>op \<in> set (butlast ops). fst op_e \<le> fst op)
         \<and> (sorted (map fst ops) \<longrightarrow> (\<forall>op \<in> set ops. fst op_e \<le> fst op))
         \<and> (\<forall>op \<in> set ops. op \<noteq> op_e \<longrightarrow>
               map_of (cache (set_all (CacheManager_init t m) ops)) (fst (snd op))
                 = Some (snd (entry_of op)))))
   \<and> (1 \<le> m \<longrightarrow> int (length (cache (set_all (CacheManager_init t m) ops'))) \<le> m)
   \<and> (1 \<le> max_size s \<and> int (length (cache s)) \<le> max_size s \<longrightarrow>
        int (length (cache (CacheManager_set s now k v))) \<le> max_size s)"
proof (intro conjI impI)
  assume "1 \<le> m \<and> length ops = nat m + 1 \<and> distinct (map (\<lambda>op. fst (snd op)) ops)"
  then have h: "1 \<le> m" "length ops = nat m + 1" "distinct (map (\<lambda>op. fst (snd op)) ops)"
    by simp_all
  from eviction_after_fill_entries [OF h, of t]
  show "int (length (cache (set_all (CacheManager_init t m) ops))) = m"
    and "evictions (stats (set_all (CacheManager_init t m) ops)) = 1"
    and "\<exists>op_e \<in> set (butlast ops).
           map_of (cache (set_all (CacheManager_init t m) ops)) (fst (snd op_e)) = None
         \<and> (\<forall>op \<in> set (butlast ops). fst op_e \<le> fst op)
         \<and> (sorted (map fst ops) \<longrightarrow> (\<forall>op \<in> set ops. fst op_e \<le> fst op))
         \<and> (\<forall>op \<in> set ops. op \<noteq> op_e \<longrightarrow>
               map_of (cache (set_all (CacheManager_init t m) ops)) (fst (snd op))
                 = Some (snd (entry_of op)))"
    by blast+
next
  assume "1 \<le> m"
  then show "int (length (cache (set_all (CacheManager_init t m) ops'))) \<le> m"
    using set_all_size_bound [of "CacheManager_init t m" ops']
    by (simp add: CacheManager_init_def)
next
  assume "1 \<le> max_size s \<and> int (length (cache s)) \<le> max_size s"
  then show "int (length (cache (CacheManager_set s now k v))) \<le> max_size s"
    by (simp add: set_size_bound)
qed

subsection \<open>Cache: examples\<close>

lemma example_cache_value:
  "example_cache =
     \<lparr>ttl = 300, max_size = 2,
      cache = [(''a'', \<lparr>timestamp = 0, data = 1\<rparr>), (''b'', \<lparr>timestamp = 10, data = 2\<rparr>)],
      stats = \<lparr>hits = 0, misses = 0, stores = 2, cleanups = 0, evictions = 0\<rparr>\<rparr>"
  by (simp add: example_cache_def example_ops_def set_all_def CacheManager_init_def
      CacheManager_set_def)

theorem get_semantics_witness:
  "map_of (cache example_cache) ''a'' = Some \<lparr>timestamp = 0, data = 1\<rparr>
   \<and> (100 :: rat) - 0 < of_int (ttl example_cache)
   \<and> fst (CacheManager_get example_cache 100 ''a'') = Some 1
   \<and> hits (stats (snd (CacheManager_get example_cache 100 ''a''))) = 1
   \<and> (300 :: rat) - 0 \<ge> of_int (ttl example_cache)
   \<and> fst (CacheManager_get example_cache 300 ''a'') = None
   \<and> map_of (cache (snd (CacheManager_get example_cache 300 ''a''))) ''a'' = None
   \<and> misses (stats (snd (CacheManager_get example_cache 300 ''a''))) = 1
   \<and> map_of (cache example_cache) ''c'' = None
   \<and> fst (CacheManager_get example_cache 100 ''c'') = None
   \<and> misses (stats (snd (CacheManager_get example_cache 100 ''c''))) = 1"
proof -
  let ?e = "\<lparr>timestamp = 0, data = 1 :: int\<rparr>"
  have a: "map_of (cache example_cache) ''a'' = Some ?e"
    and c: "map_of (cache example_cache) ''c'' = None"
    and t: "ttl example_cache = 300"
    and h: "hits (stats example_cache) = 0" and m: "misses (stats example_cache) = 0"
    by (simp_all add: example_cache_value)
  have young: "(100 :: rat) - timestamp ?e < of_int (ttl example_cache)"
    and old: "(300 :: rat) - timestamp ?e \<ge> of_int (ttl example_cache)"
    by (simp_all add: t)
  from get_semantics [of example_cache "''a''" ?e 100] a young
  have "CacheManager_get example_cache 100 ''a''
        = (Some (data ?e), example_cache\<lparr>stats := (stats example_cache)\<lparr>hits := hits (stats example_cache) + 1\<rparr>\<rparr>)"
    by blast
  then have r1: "fst (CacheManager_get example_cache 100 ''a'') = Some 1"
    "hits (stats (snd (CacheManager_get example_cache 100 ''a''))) = 1"
    by (simp_all add: h)
  from get_semantics [of example_cache "''a''" ?e 300] a old
  have "fst (CacheManager_get example_cache 300 ''a'') = None
      \<and> map_of (cache (snd (CacheManager_get example_cache 300 ''a''))) ''a'' = None
      \<and> misses (stats (snd (CacheManager_get example_cache 300 ''a'')))
          = misses (stats example_cache) + 1"
    by blast
  then have r2: "fst (CacheManager_get example_cache 300 ''a'') = None"
    "map_of (cache (snd (CacheManager_get example_cache 300 ''a''))) ''a'' = None"
    "misses (stats (snd (CacheManager_get example_cache 300 ''a''))) = 1"
    by (simp_all add: m)
  from get_semantics [of example_cache "''c''" ?e 100] c
  have "fst (CacheManager_get example_cache 100 ''c'') = None
      \<and> misses (stats (snd (CacheManager_get example_cache 100 ''c'')))
          = misses (stats example_cache) + 1"
    by blast
  then have r3: "fst (CacheManager_get example_cache 100 ''c'') = None"
    "misses (stats (snd (CacheManager_get example_cache 100 ''c''))) = 1"
    by (simp_all add: m)
  from a c r1 r2 r3 show ?thesis by (simp add: t)
qed

theorem expiry_boundary_inconsistent_witness:
  "dict_ok (cache example_cache)
   \<and> map_of (cache example_cache) ''a'' = Some \<lparr>timestamp = 0, data = 1\<rparr>
   \<and> (300 :: rat) - 0 = of_int (ttl example_cache)
   \<and> map_of (cache (snd (CacheManager_cleanup_expired example_cache 300))) ''a''
       = Some \<lparr>timestamp = 0, data = 1\<rparr>
   \<and> fst (CacheManager_get (snd (CacheManager_cleanup_expired example_cache 300)) 300 ''a'')
       = None"
proof -
  have ok: "dict_ok (cache example_cache)"
    and a: "map_of (cache example_cache) ''a'' = Some \<lparr>timestamp = 0, data = 1\<rparr>"
    and t: "(300 :: rat) - timestamp \<lparr>timestamp = 0, data = 1 :: int\<rparr> = of_int (ttl example_cache)"
    by (simp_all add: example_cache_value dict_ok_def)
  from expiry_boundary_inconsistent [OF ok a t] ok a t show ?thesis by simp
qed

lemma map_of_dict_setitem:
  "map_of (dict_setitem d k v) k' = (if k' = k then Some v else map_of d k')"
  by (induction d) auto

text \<open>
  What holds of an overwrite: the counters \<open>hits\<close> and \<open>misses\<close> are never touched by
  \<^verbatim>\<open>set\<close>, and below the maximum size no entry is evicted.
\<close>

lemma set_keeps_hits_and_misses:
  "hits (stats (CacheManager_set s now k v)) = hits (stats s)
   \<and> misses (stats (CacheManager_set s now k v)) = misses (stats s)"
  by (simp add: CacheManager_set_def CacheManager_evict_oldest_def Let_def split: list.splits)

lemma set_below_capacity:
  assumes "int (length (cache s)) < max_size s"
  shows "map_of (cache (CacheManager_set s now k v)) k'
       = (if k' = k then Some \<lparr>timestamp = now, data = v\<rparr> else map_of (cache s) k')
     \<and> evictions (stats (CacheManager_set s now k v)) = evictions (stats s)"
  using assms by (simp add: CacheManager_set_def Let_def map_of_dict_setitem)

text \<open>
  Claim C4 on the code. The claim is that an overwrite of a key that is present evicts no
  other entry, also at the maximum size. Here the cache is at its maximum size 2 and
  \<^verbatim>\<open>'b'\<close> is present: \<^verbatim>\<open>set('b', 3)\<close> evicts \<^verbatim>\<open>'a'\<close> and leaves one entry.
\<close>

theorem set_existing_key_at_capacity_evicts:
  "int (length (cache example_cache)) = max_size example_cache
   \<and> dict_contains (cache example_cache) ''b''
   \<and> map_of (cache example_cache) ''a'' = Some \<lparr>timestamp = 0, data = 1\<rparr>
   \<and> cache (CacheManager_set example_cache 20 ''b'' 3) = [(''b'', \<lparr>timestamp = 20, data = 3\<rparr>)]
   \<and> map_of (cache (CacheManager_set example_cache 20 ''b'' 3)) ''a'' = None
   \<and> evictions (stats (CacheManager_set example_cache 20 ''b'' 3)) = 1"
  by (simp add: example_cache_value dict_contains_def CacheManager_set_def
      CacheManager_evict_oldest_def dict_delitem_def)

theorem capacity_eviction_witness:
  "(1 :: int) \<le> 2 \<and> length (example_ops @ [(20, ''c'', 3)]) = nat 2 + 1
   \<and> distinct (map (\<lambda>op. fst (snd op)) (example_ops @ [(20, ''c'', 3)]))
   \<and> int (length (cache (set_all (CacheManager_init 300 2) (example_ops @ [(20, ''c'', 3)])))) = 2
   \<and> map fst (cache (set_all (CacheManager_init 300 2) (example_ops @ [(20, ''c'', 3)])))
       = [''b'', ''c'']"
proof -
  have h: "(1 :: int) \<le> 2 \<and> length (example_ops @ [(20, ''c'', 3)]) = nat 2 + 1
      \<and> distinct (map (\<lambda>op. fst (snd op)) (example_ops @ [(20, ''c'', 3)]))"
    by (simp add: example_ops_def)
  have "int (length (cache (set_all (CacheManager_init 300 2) (example_ops @ [(20, ''c'', 3)]))))
      = 2"
    using capacity_eviction [of 2 "example_ops @ [(20, ''c'', 3)]" 300, THEN conjunct1,
        rule_format, OF h, THEN conjunct1] .
  moreover have "map fst (cache (set_all (CacheManager_init 300 2)
      (example_ops @ [(20 :: rat, ''c'', 3 :: int)]))) = [''b'', ''c'']"
    by (simp add: example_ops_def set_all_def CacheManager_init_def CacheManager_set_def
        CacheManager_evict_oldest_def dict_delitem_def)
  ultimately show ?thesis using h by simp
qed

text \<open>
  Claim C5 as stated fails for the capacity 0: one key stored into a fresh cache of
  capacity 0 leaves one entry, more than \<open>max_size\<close>.
\<close>

theorem capacity_zero_counterexample:
  "length [(0 :: rat, ''a'', 1 :: int)] = nat 0 + 1
   \<and> distinct (map (\<lambda>op. fst (snd op)) [(0 :: rat, ''a'', 1 :: int)])
   \<and> max_size (CacheManager_init 300 0 :: (string, int) CacheManager) = 0
   \<and> int (length (cache (set_all (CacheManager_init 300 0) [(0 :: rat, ''a'', 1 :: int)]))) = 1"
  by (simp add: set_all_def CacheManager_init_def CacheManager_set_def
      CacheManager_evict_oldest_def)

subsection \<open>Merging\<close>

lemma os_path_exists_merge_calls [simp]:
  "os_path_exists (w\<lparr>merge_calls := n\<rparr>) p = os_path_exists w p"
  by (simp add: os_path_exists_def)

lemma processes_cleanup_files [simp]: "processes (cleanup_files w ps) = processes w"
  by (induction ps arbitrary: w) (auto simp: os_remove_def)









subsection \<open>Paths of the two transfers\<close>

lemma set_rstrip: "set (rstrip s) \<subseteq> set s"
proof -
  have "set (dropWhile (\<lambda>c. c = CHR '' '') (rev s)) \<subseteq> set (rev s)"
    by (auto dest: set_dropWhileD)
  then show ?thesis by (simp add: rstrip_def)
qed

lemma create_safe_filename_no_slash: "CHR ''/'' \<notin> set (create_safe_filename title)"
proof
  assume "CHR ''/'' \<in> set (create_safe_filename title)"
  then have "CHR ''/'' \<in> set (rstrip (filter (\<lambda>c. isalnum c
      \<or> c \<in> {CHR '' '', CHR ''-'', CHR ''_''}) title))"
    unfolding create_safe_filename_def by (rule in_set_takeD)
  with set_rstrip have "CHR ''/'' \<in> set (filter (\<lambda>c. isalnum c
      \<or> c \<in> {CHR '' '', CHR ''-'', CHR ''_''}) title)"
    by blast
  then show False by (simp add: isalnum_def is_digit_def is_alpha_def)
qed

lemma temp_filename_relative:
  assumes "CHR ''/'' \<notin> set t"
  shows "t @ CHR ''_'' # rest \<noteq> [] \<and> hd (t @ CHR ''_'' # rest) \<noteq> CHR ''/''"
  using assms by (cases t) auto

lemma below_os_path_join:
  assumes "d \<noteq> []" and "f \<noteq> []" and "hd f \<noteq> CHR ''/''"
  shows "below d (os_path_join d f)"
  using assms by (auto simp: below_def os_path_join_def nth_append)

lemma os_path_join_inject:
  assumes "f \<noteq> []" "hd f \<noteq> CHR ''/''" "g \<noteq> []" "hd g \<noteq> CHR ''/''"
  shows "os_path_join d f = os_path_join d g \<longleftrightarrow> f = g"
  using assms by (auto simp: os_path_join_def)

lemma below_irrefl: "\<not> below d d"
  by (simp add: below_def)


subsection \<open>The two transfers\<close>

lemma download_stream_succeeds:
  assumes "download s = Transfer (Some n) None" and "0 < n"
  shows "download_stream s w d f
       = (Inr (os_path_join d f), w\<lparr>files := (files w)(os_path_join d f \<mapsto> n)\<rparr>)"
  using assms
  by (simp add: download_stream_def os_path_exists_def os_path_getsize_def Let_def)

lemma download_stream_fails:
  assumes "raises (download s) \<noteq> None \<or> written (download s) = None
      \<or> written (download s) = Some 0"
    and "\<not> os_path_exists w (os_path_join d f)"
  shows "\<exists>m fs. download_stream s w d f
       = (Inl (DownloadError (''Failed to download stream: '' @ m)), w\<lparr>files := fs\<rparr>)
     \<and> (\<forall>p. p \<noteq> os_path_join d f \<longrightarrow> fs p = files w p)"
proof (cases "download s")
  case (Transfer wr ra)
  show ?thesis
  proof (cases ra)
    case (Some m)
    show ?thesis
    proof (cases wr)
      case None
      with Some Transfer have "download_stream s w d f
          = (Inl (DownloadError (''Failed to download stream: '' @ m)), w\<lparr>files := files w\<rparr>)"
        by (simp add: download_stream_def)
      then show ?thesis by blast
    next
      case (Some k)
      with \<open>ra = Some m\<close> Transfer have "download_stream s w d f
          = (Inl (DownloadError (''Failed to download stream: '' @ m)),
             w\<lparr>files := (files w)(os_path_join d f \<mapsto> k)\<rparr>)"
        by (simp add: download_stream_def Let_def)
      moreover have "\<forall>p. p \<noteq> os_path_join d f \<longrightarrow>
          ((files w)(os_path_join d f \<mapsto> k)) p = files w p"
        by simp
      ultimately show ?thesis by blast
    qed
  next
    case None
    with assms(1) Transfer have "wr = None \<or> wr = Some 0" by simp
    then show ?thesis
    proof
      assume "wr = None"
      with None Transfer assms(2) have "download_stream s w d f
          = (Inl (DownloadError (''Failed to download stream: ''
               @ ''Download failed - file not created or empty: '' @ f)), w\<lparr>files := files w\<rparr>)"
        by (simp add: download_stream_def)
      then show ?thesis by blast
    next
      assume "wr = Some 0"
      with None Transfer have "download_stream s w d f
          = (Inl (DownloadError (''Failed to download stream: ''
               @ ''Download failed - file not created or empty: '' @ f)),
             w\<lparr>files := (files w)(os_path_join d f \<mapsto> 0)\<rparr>)"
        by (simp add: download_stream_def os_path_exists_def os_path_getsize_def Let_def)
      moreover have "\<forall>p. p \<noteq> os_path_join d f \<longrightarrow>
          ((files w)(os_path_join d f \<mapsto> 0)) p = files w p"
        by simp
      ultimately show ?thesis by blast
    qed
  qed
qed

lemma parallel_downloads_audio_fails:
  assumes v: "download vs = Transfer (Some n) None" "0 < n"
    and a: "raises (download as) \<noteq> None \<or> written (download as) = None
      \<or> written (download as) = Some 0"
    and paths: "os_path_join d vf \<noteq> os_path_join d af"
    and fresh: "\<not> os_path_exists w (os_path_join d af)"
  shows "\<exists>m fs. parallel_downloads b vs vf as af d w
       = (Inr (os_path_join d vf), Inl (DownloadError (''Failed to download stream: '' @ m)),
          w\<lparr>files := fs\<rparr>)
     \<and> (\<forall>p. p \<noteq> os_path_join d vf \<longrightarrow> p \<noteq> os_path_join d af \<longrightarrow> fs p = files w p)"
proof (cases b)
  case True
  let ?w1 = "w\<lparr>files := (files w)(os_path_join d vf \<mapsto> n)\<rparr>"
  have dv: "download_stream vs w d vf = (Inr (os_path_join d vf), ?w1)"
    using v by (rule download_stream_succeeds)
  from fresh paths have "\<not> os_path_exists ?w1 (os_path_join d af)"
    by (simp add: os_path_exists_def)
  with a obtain m fs where da: "download_stream as ?w1 d af
       = (Inl (DownloadError (''Failed to download stream: '' @ m)), ?w1\<lparr>files := fs\<rparr>)"
    and fs: "\<forall>p. p \<noteq> os_path_join d af \<longrightarrow> fs p = files ?w1 p"
    using download_stream_fails [of as ?w1 d af] by blast
  from True dv da have "parallel_downloads b vs vf as af d w
       = (Inr (os_path_join d vf), Inl (DownloadError (''Failed to download stream: '' @ m)),
          w\<lparr>files := fs\<rparr>)"
    by (simp add: parallel_downloads_def)
  moreover from fs have "\<forall>p. p \<noteq> os_path_join d vf \<longrightarrow> p \<noteq> os_path_join d af
      \<longrightarrow> fs p = files w p"
    by simp
  ultimately show ?thesis by blast
next
  case False
  from a fresh obtain m fs where da: "download_stream as w d af
       = (Inl (DownloadError (''Failed to download stream: '' @ m)), w\<lparr>files := fs\<rparr>)"
    and fs: "\<forall>p. p \<noteq> os_path_join d af \<longrightarrow> fs p = files w p"
    using download_stream_fails [of as w d af] by blast
  let ?w1 = "w\<lparr>files := fs\<rparr>"
  have dv: "download_stream vs ?w1 d vf
      = (Inr (os_path_join d vf), ?w1\<lparr>files := (files ?w1)(os_path_join d vf \<mapsto> n)\<rparr>)"
    using v by (rule download_stream_succeeds)
  from False dv da have "parallel_downloads b vs vf as af d w
       = (Inr (os_path_join d vf), Inl (DownloadError (''Failed to download stream: '' @ m)),
          w\<lparr>files := fs(os_path_join d vf \<mapsto> n)\<rparr>)"
    by (simp add: parallel_downloads_def)
  moreover from fs have "\<forall>p. p \<noteq> os_path_join d vf \<longrightarrow> p \<noteq> os_path_join d af
      \<longrightarrow> (fs(os_path_join d vf \<mapsto> n)) p = files w p"
    by simp
  ultimately show ?thesis by blast
qed


subsection \<open>The smart download when the audio transfer fails\<close>

lemma smart_download_audio_fails:
  assumes opt: "smart_option env = Some opt" "plan_type opt = ''merge''"
      "audio_stream opt = Some astream"
    and yt: "yt_title env = Inr title"
    and tmp: "temp_name env = Inr d" "d \<noteq> []" "\<not> os_path_exists w d"
    and av: "is_available service"
    and v: "download (video_stream opt) = Transfer (Some n) None" "0 < n"
    and a: "raises (download astream) \<noteq> None \<or> written (download astream) = None
      \<or> written (download astream) = Some 0"
  shows "\<exists>m fs. smart_download service env w
       = (Inl (HTTPException 500 (''Failed to download stream: '' @ m)),
          cleanup_merge_dir
            (w\<lparr>files := fs, dirs := insert d {p \<in> dirs w. \<not> below d p}\<rparr>) d)
     \<and> fs d = None"
proof -
  define st where "st = create_safe_filename (or_default title ''smart_download'')"
  define vf where "vf = st @ ''_video_temp.'' @ subtype (video_stream opt)"
  define af where "af = st @ ''_audio_temp.'' @ subtype astream"
  define w1 where "w1 = w\<lparr>files := (\<lambda>p. if below d p then None else files w p),
      dirs := insert d {p \<in> dirs w. \<not> below d p}\<rparr>"
  have slash: "CHR ''/'' \<notin> set st"
    unfolding st_def by (rule create_safe_filename_no_slash)
  have vrel: "vf \<noteq> [] \<and> hd vf \<noteq> CHR ''/''"
    using temp_filename_relative [OF slash, of "''video_temp.'' @ subtype (video_stream opt)"]
    by (simp add: vf_def)
  have arel: "af \<noteq> [] \<and> hd af \<noteq> CHR ''/''"
    using temp_filename_relative [OF slash, of "''audio_temp.'' @ subtype astream"]
    by (simp add: af_def)
  have "vf \<noteq> af" by (simp add: vf_def af_def)
  with vrel arel have paths: "os_path_join d vf \<noteq> os_path_join d af"
    by (simp add: os_path_join_inject)
  have bv: "below d (os_path_join d vf)" and ba: "below d (os_path_join d af)"
    using tmp(2) vrel arel by (simp_all add: below_os_path_join)
  from ba have "os_path_join d af \<noteq> d" using below_irrefl by metis
  with ba have fresh: "\<not> os_path_exists w1 (os_path_join d af)"
    by (simp add: os_path_exists_def w1_def)
  from bv have vd: "os_path_join d vf \<noteq> d" using below_irrefl by metis
  from ba have ad: "os_path_join d af \<noteq> d" using below_irrefl by metis
  have mk: "create_temp_merge_dir (temp_name env) w = (Inr d, w1)"
    using tmp by (simp add: create_temp_merge_dir_def mkdtemp_def w1_def)
  from parallel_downloads_audio_fails [OF v a paths fresh, of "video_first env"]
  obtain m fs where pd: "parallel_downloads (video_first env) (video_stream opt) vf astream af d w1
       = (Inr (os_path_join d vf), Inl (DownloadError (''Failed to download stream: '' @ m)),
          w1\<lparr>files := fs\<rparr>)"
    and fs: "\<forall>p. p \<noteq> os_path_join d vf \<longrightarrow> p \<noteq> os_path_join d af \<longrightarrow> fs p = files w1 p"
    by blast
  have mb: "merge_branch service env opt st d w1
      = (Inl (DownloadError (''Failed to download stream: '' @ m)), w1\<lparr>files := fs\<rparr>)"
    using av opt(3) pd by (simp add: merge_branch_def vf_def af_def)
  have tried: "smart_download_try service env w
      = (Inl (DownloadError (''Failed to download stream: '' @ m)), Some d, w1\<lparr>files := fs\<rparr>)"
    using opt(1,2) yt mk mb by (simp add: smart_download_try_def st_def)
  have sd: "smart_download service env w
      = (Inl (HTTPException 500 (''Failed to download stream: '' @ m)),
         cleanup_merge_dir (w1\<lparr>files := fs\<rparr>) d)"
    using tried tmp(2) by (simp add: smart_download_def)
  have w2: "w1\<lparr>files := fs\<rparr> = w\<lparr>files := fs, dirs := insert d {p \<in> dirs w. \<not> below d p}\<rparr>"
    by (simp add: w1_def)
  from tmp(3) have "files w d = None" by (simp add: os_path_exists_def)
  with fs vd ad have "fs d = None" by (simp add: w1_def below_irrefl)
  with sd w2 show ?thesis by auto
qed

lemma cleanup_merge_dir_frame:
  "merge_calls (cleanup_merge_dir w d) = merge_calls w
   \<and> commands (cleanup_merge_dir w d) = commands w"
  by (simp add: cleanup_merge_dir_def shutil_rmtree_def)

lemma cleanup_merge_dir_removes:
  assumes "d \<in> dirs w" and "d \<notin> unremovable w" and "\<forall>p \<in> unremovable w. \<not> below d p"
    and "files w d = None"
  shows "\<not> os_path_exists (cleanup_merge_dir w d) d
     \<and> (\<forall>p. below d p \<longrightarrow> \<not> os_path_exists (cleanup_merge_dir w d) p)"
proof -
  from assms have "\<not> rmtree_fails w d" by (auto simp: rmtree_fails_def)
  with assms show ?thesis
    by (simp add: cleanup_merge_dir_def shutil_rmtree_def os_path_exists_def below_irrefl)
qed

lemma cleanup_merge_dir_fails:
  assumes "d \<in> dirs w" and "d \<in> unremovable w"
  shows "os_path_exists (cleanup_merge_dir w d) d"
  using assms
  by (simp add: cleanup_merge_dir_def shutil_rmtree_def rmtree_fails_def os_path_exists_def)

text \<open>
  Claim C3, amended. In a smart download with a merge plan whose video transfer succeeds
  and whose audio transfer fails (it raises, leaves an empty file or leaves no file), in
  either order of the two transfers: the call raises the \<^verbatim>\<open>HTTPException\<close> with status 500
  that carries the message of the \<^verbatim>\<open>DownloadError\<close>; \<^verbatim>\<open>merge_video_audio\<close> is not called
  and no process is started; and the temporary directory and everything below it are gone
  when the call returns, provided that their removal does not fail. When the removal of the
  directory fails, the failure is logged and the directory is still there.
\<close>

theorem audio_failure_aborts_smart_download:
  assumes "smart_option env = Some opt" and "plan_type opt = ''merge''"
    and "audio_stream opt = Some astream"
    and "yt_title env = Inr title"
    and "temp_name env = Inr d" and "d \<noteq> []" and "\<not> os_path_exists w d"
    and "is_available service"
    and "download (video_stream opt) = Transfer (Some n) None" and "0 < n"
    and "raises (download astream) \<noteq> None \<or> written (download astream) = None
      \<or> written (download astream) = Some 0"
  shows "(\<exists>m. fst (smart_download service env w)
            = Inl (HTTPException 500 (''Failed to download stream: '' @ m)))
     \<and> merge_calls (snd (smart_download service env w)) = merge_calls w
     \<and> commands (snd (smart_download service env w)) = commands w
     \<and> (d \<notin> unremovable w \<and> (\<forall>p \<in> unremovable w. \<not> below d p) \<longrightarrow>
          \<not> os_path_exists (snd (smart_download service env w)) d
          \<and> (\<forall>p. below d p \<longrightarrow> \<not> os_path_exists (snd (smart_download service env w)) p))
     \<and> (d \<in> unremovable w \<longrightarrow> os_path_exists (snd (smart_download service env w)) d)"
proof -
  from smart_download_audio_fails [OF assms]
  obtain m fs where sd: "smart_download service env w
       = (Inl (HTTPException 500 (''Failed to download stream: '' @ m)),
          cleanup_merge_dir
            (w\<lparr>files := fs, dirs := insert d {p \<in> dirs w. \<not> below d p}\<rparr>) d)"
    and fsd: "fs d = None"
    by blast
  let ?w2 = "w\<lparr>files := fs, dirs := insert d {p \<in> dirs w. \<not> below d p}\<rparr>"
  have "\<exists>m. fst (smart_download service env w)
      = Inl (HTTPException 500 (''Failed to download stream: '' @ m))"
    using sd by simp
  moreover have "merge_calls (snd (smart_download service env w)) = merge_calls w"
    and "commands (snd (smart_download service env w)) = commands w"
    using cleanup_merge_dir_frame [of ?w2 d] sd by simp_all
  moreover have "d \<notin> unremovable w \<and> (\<forall>p \<in> unremovable w. \<not> below d p) \<longrightarrow>
          \<not> os_path_exists (snd (smart_download service env w)) d
          \<and> (\<forall>p. below d p \<longrightarrow> \<not> os_path_exists (snd (smart_download service env w)) p)"
    using cleanup_merge_dir_removes [of d ?w2] fsd sd by simp
  moreover have "d \<in> unremovable w \<longrightarrow> os_path_exists (snd (smart_download service env w)) d"
    using cleanup_merge_dir_fails [of d ?w2] sd by simp
  ultimately show ?thesis by blast
qed

subsection \<open>Smart download: examples\<close>

lemma example_plan_fields:
  "plan_type example_plan = ''merge''"
  "audio_stream example_plan = Some example_audio_empty"
  "download (video_stream example_plan) = Transfer (Some 26214400) None"
  "written (download example_audio_empty) = Some 0"
  by (simp_all add: example_plan_def merge_selection_def StreamAnalysis_init_def
      analysis_of_video_def example_video_def example_audio_empty_def example_audio_def)

lemma example_environment_fields:
  "smart_option (example_environment b) = Some example_plan"
  "yt_title (example_environment b) = Inr (Some ''Test Video'')"
  "temp_name (example_environment b) = Inr ''/tmp/ytdl_merge_1''"
  by (simp_all add: example_environment_def)

lemma example_worlds:
  "\<not> os_path_exists clean_world ''/tmp/ytdl_merge_1''"
  "\<not> os_path_exists locked_world ''/tmp/ytdl_merge_1''"
  "unremovable clean_world = {}"
  "''/tmp/ytdl_merge_1'' \<in> unremovable locked_world"
  "merge_calls clean_world = 0" "commands clean_world = []"
  by (simp_all add: os_path_exists_def clean_world_def locked_world_def)

lemma example_service_available: "is_available example_service"
  by (simp add: is_available_def example_service_def)

text \<open>
  Claim C3 as stated fails: when the removal of the temporary directory fails,
  \<^verbatim>\<open>cleanup_merge_dir\<close> catches the exception, and the directory is still there after the
  call has raised its error.
\<close>

theorem workspace_survives_failed_removal_counterexample:
  "plan_type example_plan = ''merge''
   \<and> download (video_stream example_plan) = Transfer (Some 26214400) None
   \<and> written (download example_audio_empty) = Some 0
   \<and> (\<exists>m. fst (smart_download example_service (example_environment True) locked_world)
          = Inl (HTTPException 500 (''Failed to download stream: '' @ m)))
   \<and> os_path_exists (snd (smart_download example_service (example_environment True) locked_world))
        ''/tmp/ytdl_merge_1''"
proof -
  have audio: "raises (download example_audio_empty) \<noteq> None
      \<or> written (download example_audio_empty) = None
      \<or> written (download example_audio_empty) = Some 0"
    by (simp add: example_plan_fields)
  from smart_download_audio_fails [of "example_environment True" example_plan
      example_audio_empty "Some ''Test Video''" "''/tmp/ytdl_merge_1''" locked_world
      example_service 26214400,
      OF example_environment_fields(1) example_plan_fields(1,2) example_environment_fields(2,3)
        _ example_worlds(2) example_service_available example_plan_fields(3) _ audio]
  obtain m fs where sd:
    "smart_download example_service (example_environment True) locked_world
       = (Inl (HTTPException 500 (''Failed to download stream: '' @ m)),
          cleanup_merge_dir
            (locked_world\<lparr>files := fs,
               dirs := insert ''/tmp/ytdl_merge_1''
                 {p \<in> dirs locked_world. \<not> below ''/tmp/ytdl_merge_1'' p}\<rparr>)
            ''/tmp/ytdl_merge_1'')"
    by auto
  have "os_path_exists
      (cleanup_merge_dir
        (locked_world\<lparr>files := fs,
           dirs := insert ''/tmp/ytdl_merge_1''
             {p \<in> dirs locked_world. \<not> below ''/tmp/ytdl_merge_1'' p}\<rparr>)
        ''/tmp/ytdl_merge_1'') ''/tmp/ytdl_merge_1''"
    by (rule cleanup_merge_dir_fails) (simp_all add: example_worlds)
  with sd show ?thesis by (simp add: example_plan_fields)
qed

theorem audio_failure_aborts_smart_download_witness:
  "smart_option (example_environment False) = Some example_plan
   \<and> plan_type example_plan = ''merge''
   \<and> audio_stream example_plan = Some example_audio_empty
   \<and> is_available example_service
   \<and> download (video_stream example_plan) = Transfer (Some 26214400) None
   \<and> written (download example_audio_empty) = Some 0
   \<and> \<not> os_path_exists clean_world ''/tmp/ytdl_merge_1''
   \<and> (\<exists>m. fst (smart_download example_service (example_environment False) clean_world)
          = Inl (HTTPException 500 (''Failed to download stream: '' @ m)))
   \<and> merge_calls (snd (smart_download example_service (example_environment False) clean_world))
       = 0
   \<and> commands (snd (smart_download example_service (example_environment False) clean_world))
       = []
   \<and> \<not> os_path_exists
          (snd (smart_download example_service (example_environment False) clean_world))
          ''/tmp/ytdl_merge_1''"
proof -
  have audio: "raises (download example_audio_empty) \<noteq> None
      \<or> written (download example_audio_empty) = None
      \<or> written (download example_audio_empty) = Some 0"
    by (simp add: example_plan_fields)
  note inst = audio_failure_aborts_smart_download [of "example_environment False" example_plan
      example_audio_empty "Some ''Test Video''" "''/tmp/ytdl_merge_1''" clean_world
      example_service 26214400,
      OF example_environment_fields(1) example_plan_fields(1,2) example_environment_fields(2,3)
        _ example_worlds(1) example_service_available example_plan_fields(3) _ audio]
  have inst': "(\<exists>m. fst (smart_download example_service (example_environment False) clean_world)
            = Inl (HTTPException 500 (''Failed to download stream: '' @ m)))
     \<and> merge_calls (snd (smart_download example_service (example_environment False) clean_world))
         = merge_calls clean_world
     \<and> commands (snd (smart_download example_service (example_environment False) clean_world))
         = commands clean_world
     \<and> \<not> os_path_exists
          (snd (smart_download example_service (example_environment False) clean_world))
          ''/tmp/ytdl_merge_1''"
    using inst by (simp add: example_worlds)
  then show ?thesis
    by (simp add: example_plan_fields example_environment_fields example_worlds
        example_service_available)
qed


end
